theory Spec2Isabelle
  imports Complex_Main "HOL-Library.Word"
begin

section \<open>Data model\<close>

text \<open>
  The ledger engine of package \<open>iko\<close> (\<open>src/iko/blockchain.go\<close>). Go's \<open>uint64\<close> is
  \<open>64 word\<close>, a transaction hash (32 bytes) is \<open>256 word\<close>. Addresses, public keys and
  signatures are opaque values of the \<open>cipher\<close> library; they are numbered here.
\<close>

type_synonym uint64 = "64 word"
type_synonym KittyID = "64 word"
type_synonym TxHash = "256 word"
type_synonym Address = nat
type_synonym PubKey = nat
type_synonym Signature = nat

text \<open>The fields of a transaction that \<open>blockchain.go\<close> reads: \<open>tx.KittyID\<close>, \<open>tx.In\<close>,
  \<open>tx.Out\<close>; \<open>Sig\<close> is the signature the verifier checks.\<close>

record Transaction =
  KittyID :: KittyID
  In :: TxHash
  Out :: Address
  Sig :: Signature

text \<open>The error kinds of the specification (section 7), and the key check of the
  \<open>cipher\<close> library.\<close>

datatype error =
    MalformedTransaction
  | UnauthorizedCreation
  | InvalidSignature
  | StaleReference
  | DuplicateAsset
  | StaleOwnership
  | NotFound
  | InvalidPageSize
  | InvalidPubKey

text \<open>Go run-time panics that the engine's code can reach.\<close>

datatype panic =
    NilDereference
  | DivideByZero
  | ActionFailed error
  | CloseOfClosedChannel

text \<open>What a Go function of result type \<open>error\<close> does: returns \<open>nil\<close>, returns an
  error, or panics.\<close>

datatype status = Ok | Err error | Panic panic

text \<open>What a Go function of result type \<open>(T, error)\<close> does.\<close>

datatype 'a outcome = Value 'a | Error error | Panicked panic

subsection \<open>The methods of a transaction\<close>

text \<open>
  \<open>tx.Hash()\<close>, \<open>tx.Verify(unspent, creatorPK)\<close>, \<open>tx.IsKittyGen(creatorPK)\<close> and
  \<open>pk.Verify()\<close> are called by the engine and declared elsewhere. The engine is
  modelled for any implementation of them; \<open>None\<close> is Go's \<open>nil\<close> (for the error and
  for the pointer \<open>unspent\<close>).
\<close>

record methods =
  tx_Hash :: "Transaction \<Rightarrow> TxHash"
  tx_Verify :: "Transaction \<Rightarrow> Transaction option \<Rightarrow> PubKey \<Rightarrow> error option"
  tx_IsKittyGen :: "Transaction \<Rightarrow> PubKey \<Rightarrow> bool"
  pk_Verify :: "PubKey \<Rightarrow> error option"

section \<open>The chain log\<close>

text \<open>
  Modelled from the spec: the interface \<open>ChainDB\<close> and its implementation are not in
  the sources. Section 4.2: an append-only store of transactions, indexed by sequence
  (dense from 0, assigned on append) and by hash. \<open>length()\<close>, \<open>head()\<close>,
  \<open>get_by_sequence\<close>, \<open>get_by_hash\<close> (\<open>NotFound\<close> on a miss), and \<open>get_range\<close>,
  which returns fewer items when the range exceeds the log and is no error for that
  reason. The contract states no other condition on the range, so the range lookup
  returns no error.
\<close>

type_synonym ChainDB = "Transaction list"

definition Len :: "ChainDB \<Rightarrow> uint64" where
  "Len c = word_of_nat (length c)"

definition Head :: "ChainDB \<Rightarrow> error + Transaction" where
  "Head c = (if c = [] then Inl NotFound else Inr (last c))"

definition GetTxOfSeq :: "ChainDB \<Rightarrow> uint64 \<Rightarrow> error + Transaction" where
  "GetTxOfSeq c seq = (if unat seq < length c then Inr (c ! unat seq) else Inl NotFound)"

text \<open>The entry found by hash is the first one of the log with that hash.\<close>

definition GetTxOfHash :: "methods \<Rightarrow> ChainDB \<Rightarrow> TxHash \<Rightarrow> error + Transaction" where
  "GetTxOfHash m c h =
     (case find (\<lambda>t. tx_Hash m t = h) c of None \<Rightarrow> Inl NotFound | Some t \<Rightarrow> Inr t)"

definition GetTxsOfSeqRange :: "ChainDB \<Rightarrow> uint64 \<Rightarrow> uint64 \<Rightarrow> error + Transaction list" where
  "GetTxsOfSeqRange c startSeq pageSize = Inr (take (unat pageSize) (drop (unat startSeq) c))"

section \<open>The ownership projection\<close>

text \<open>
  Modelled from the spec: the interface \<open>StateDB\<close> and its implementation are not in
  the sources. Section 3 and 4.3: per asset the owner and the hash of its unspent
  transaction, per address the assets it holds, updated in lock-step.
  \<open>apply_creation\<close> fails with \<open>DuplicateAsset\<close> when the asset exists;
  \<open>apply_transfer\<close> fails with \<open>StaleOwnership\<close> when the asset is unknown or its
  owner is not the expected one. A failed operation changes nothing.
\<close>

record KittyState =
  Owner :: Address
  Unspent :: TxHash

record StateDB =
  kitties :: "KittyID \<rightharpoonup> KittyState"
  holdings :: "Address \<Rightarrow> KittyID set"

definition NewMemoryState :: StateDB where
  "NewMemoryState = \<lparr>kitties = Map.empty, holdings = (\<lambda>a. {})\<rparr>"

definition GetKittyState :: "StateDB \<Rightarrow> KittyID \<Rightarrow> KittyState option" where
  "GetKittyState s k = kitties s k"

definition GetKittyUnspentTx :: "StateDB \<Rightarrow> KittyID \<Rightarrow> TxHash option" where
  "GetKittyUnspentTx s k = map_option Unspent (kitties s k)"

definition GetAddressState :: "StateDB \<Rightarrow> Address \<Rightarrow> KittyID set" where
  "GetAddressState s a = holdings s a"

definition AddKitty :: "StateDB \<Rightarrow> TxHash \<Rightarrow> KittyID \<Rightarrow> Address \<Rightarrow> error + StateDB" where
  "AddKitty s h k out =
     (case kitties s k of
        Some ks \<Rightarrow> Inl DuplicateAsset
      | None \<Rightarrow>
          Inr (s\<lparr>kitties := (kitties s)(k \<mapsto> \<lparr>Owner = out, Unspent = h\<rparr>),
                 holdings := (holdings s)(out := insert k (holdings s out))\<rparr>))"

definition MoveKitty ::
  "StateDB \<Rightarrow> TxHash \<Rightarrow> KittyID \<Rightarrow> Address \<Rightarrow> Address \<Rightarrow> error + StateDB" where
  "MoveKitty s h k from to =
     (case kitties s k of
        None \<Rightarrow> Inl StaleOwnership
      | Some ks \<Rightarrow>
          if Owner ks \<noteq> from then Inl StaleOwnership
          else
            let hs = (holdings s)(from := holdings s from - {k})
            in Inr (s\<lparr>kitties := (kitties s)(k \<mapsto> \<lparr>Owner = to, Unspent = h\<rparr>),
                      holdings := hs(to := insert k (hs to))\<rparr>))"

section \<open>The ledger engine\<close>

text \<open>\<open>TxAction\<close> is a function value and may be \<open>nil\<close> (\<open>None\<close>).\<close>

record BlockChainConfig =
  CreatorPK :: PubKey
  TxAction :: "(Transaction \<Rightarrow> error option) option"

text \<open>The fields \<open>c\<close>, \<open>chain\<close> and \<open>state\<close> of \<open>BlockChain\<close>. The logger writes to
  standard error only; the lock, the wait group and the quit channel are in
  section \<open>Shutdown\<close>.\<close>

record BlockChain =
  conf :: BlockChainConfig
  chainDB :: ChainDB
  stateDB :: StateDB

text \<open>\<open>Prepare\<close> (lines 15-25) works on a pointer: the configuration is changed in
  place also when the error is returned.\<close>

definition Prepare :: "methods \<Rightarrow> BlockChainConfig \<Rightarrow> error option \<times> BlockChainConfig" where
  "Prepare m cc =
     (let cc1 = (if TxAction cc = None then cc\<lparr>TxAction := Some (\<lambda>tx. None)\<rparr> else cc)
      in case pk_Verify m (CreatorPK cc1) of
           Some e \<Rightarrow> (Some e, cc1)
         | None \<Rightarrow> (None, cc1))"

text \<open>Lines 149-156 of \<open>MakeTxChecker\<close>: the unspent transaction of the candidate's
  asset, \<open>nil\<close> when the projection has no record of the asset.\<close>

definition lookupUnspent :: "methods \<Rightarrow> BlockChain \<Rightarrow> Transaction \<Rightarrow> error + Transaction option" where
  "lookupUnspent m bc tx =
     (case GetKittyUnspentTx (stateDB bc) (KittyID tx) of
        None \<Rightarrow> Inr None
      | Some tempHash \<Rightarrow>
          (case GetTxOfHash m (chainDB bc) tempHash of
             Inl e \<Rightarrow> Inl e
           | Inr temp \<Rightarrow> Inr (Some temp)))"

text \<open>\<open>MakeTxChecker\<close> (lines 147-183). The closure holds the pointer \<open>bc\<close>; the
  engine it leaves behind is returned with the status. \<open>unspent.Out\<close> on a \<open>nil\<close>
  pointer is a run-time panic.\<close>

definition MakeTxChecker :: "methods \<Rightarrow> BlockChain \<Rightarrow> Transaction \<Rightarrow> status \<times> BlockChain" where
  "MakeTxChecker m bc tx =
     (case lookupUnspent m bc tx of
        Inl e \<Rightarrow> (Err e, bc)
      | Inr unspent \<Rightarrow>
          (case tx_Verify m tx unspent (CreatorPK (conf bc)) of
             Some e \<Rightarrow> (Err e, bc)
           | None \<Rightarrow>
               if tx_IsKittyGen m tx (CreatorPK (conf bc)) then
                 (case AddKitty (stateDB bc) (tx_Hash m tx) (KittyID tx) (Out tx) of
                    Inl e \<Rightarrow> (Err e, bc)
                  | Inr s \<Rightarrow> (Ok, bc\<lparr>stateDB := s\<rparr>))
               else
                 (case unspent of
                    None \<Rightarrow> (Panic NilDereference, bc)
                  | Some u \<Rightarrow>
                      (case MoveKitty (stateDB bc) (tx_Hash m tx) (KittyID tx) (Out u) (Out tx) of
                         Inl e \<Rightarrow> (Err e, bc)
                       | Inr s \<Rightarrow> (Ok, bc\<lparr>stateDB := s\<rparr>)))))"

text \<open>
  Modelled from the spec: \<open>ChainDB.AddTx\<close> is not in the sources. Section 4.2:
  \<open>append(tx, validation_hook)\<close>, where the hook is invoked with the candidate before
  the physical append and must succeed for the append to occur. The hook is a closure
  over the engine, so the engine is threaded through it.
\<close>

definition AddTx ::
  "Transaction \<Rightarrow> (BlockChain \<Rightarrow> Transaction \<Rightarrow> status \<times> BlockChain) \<Rightarrow> BlockChain \<Rightarrow> status \<times> BlockChain" where
  "AddTx tx check bc =
     (case check bc tx of
        (Ok, bc1) \<Rightarrow> (Ok, bc1\<lparr>chainDB := chainDB bc1 @ [tx]\<rparr>)
      | (Err e, bc1) \<Rightarrow> (Err e, bc1)
      | (Panic p, bc1) \<Rightarrow> (Panic p, bc1))"

text \<open>\<open>InjectTx\<close> (lines 140-145), under the write lock.\<close>

definition InjectTx :: "methods \<Rightarrow> BlockChain \<Rightarrow> Transaction \<Rightarrow> status \<times> BlockChain" where
  "InjectTx m bc tx = AddTx tx (MakeTxChecker m) bc"

text \<open>\<open>InitState\<close> (lines 65-83): \<open>for i := uint64(1); i < bc.chain.Len(); i++\<close>.\<close>

function InitState_loop :: "methods \<Rightarrow> uint64 \<Rightarrow> BlockChain \<Rightarrow> status \<times> BlockChain" where
  "InitState_loop m i bc =
     (if i < Len (chainDB bc) then
        (case GetTxOfSeq (chainDB bc) i of
           Inl e \<Rightarrow> (Err e, bc)
         | Inr tx \<Rightarrow>
             (case MakeTxChecker m bc tx of
                (Ok, bc1) \<Rightarrow> InitState_loop m (i + 1) bc1
              | (Err e, bc1) \<Rightarrow> (Err e, bc1)
              | (Panic p, bc1) \<Rightarrow> (Panic p, bc1)))
      else (Ok, bc))"
  by pat_completeness auto
termination
proof (relation "measure (\<lambda>(m, i, bc). unat (Len (chainDB bc)) - unat i)")
  show "wf (measure (\<lambda>(m, i, bc). unat (Len (chainDB bc)) - unat i))"
    by simp
next
  fix m :: methods and i :: uint64 and bc tx x bc1
  assume lt: "i < Len (chainDB bc)"
    and chk: "(x, bc1) = MakeTxChecker m bc tx"
  have "chainDB (snd (MakeTxChecker m bc tx)) = chainDB bc"
    by (simp add: MakeTxChecker_def split: sum.splits option.splits)
  then have c: "chainDB bc1 = chainDB bc"
    using chk [symmetric] by simp
  have "unat i < unat (Len (chainDB bc))"
    using lt by (simp add: word_less_nat_alt)
  moreover have "unat (i + 1) = Suc (unat i)"
    using lt by unat_arith
  ultimately show "((m, i + 1, bc1), (m, i, bc)) \<in> measure (\<lambda>(m, i, bc). unat (Len (chainDB bc)) - unat i)"
    using c by simp
qed

definition InitState :: "methods \<Rightarrow> BlockChain \<Rightarrow> status \<times> BlockChain" where
  "InitState m bc = InitState_loop m 1 bc"

text \<open>\<open>NewBlockChain\<close> (lines 38-63). After a successful replay the dispatcher is
  started (\<open>go bc.service()\<close>) and the engine returned.\<close>

definition NewBlockChain ::
  "methods \<Rightarrow> BlockChainConfig \<Rightarrow> ChainDB \<Rightarrow> StateDB \<Rightarrow> BlockChain outcome" where
  "NewBlockChain m config cdb sdb =
     (case Prepare m config of
        (Some e, cc) \<Rightarrow> Error e
      | (None, cc) \<Rightarrow>
          (case InitState m \<lparr>conf = cc, chainDB = cdb, stateDB = sdb\<rparr> of
             (Ok, bc) \<Rightarrow> Value bc
           | (Err e, bc) \<Rightarrow> Error e
           | (Panic p, bc) \<Rightarrow> Panicked p))"

subsection \<open>Pagination\<close>

text \<open>\<open>totalPageCount\<close> (lines 191-197); \<open>%\<close> and \<open>/\<close> by zero panic in Go.\<close>

definition totalPageCount :: "uint64 \<Rightarrow> uint64 \<Rightarrow> panic + uint64" where
  "totalPageCount len pageSize =
     (if pageSize = 0 then Inl DivideByZero
      else if len mod pageSize = 0 then Inr (len div pageSize)
      else Inr (len div pageSize + 1))"

record PaginatedTransactions =
  TotalPageCount :: uint64
  Transactions :: "Transaction list"

text \<open>\<open>GetTransactionPage\<close> (lines 199-211); \<open>perPage*currentPage\<close> is a product of
  \<open>uint64\<close>.\<close>

definition GetTransactionPage ::
  "BlockChain \<Rightarrow> uint64 \<Rightarrow> uint64 \<Rightarrow> PaginatedTransactions outcome" where
  "GetTransactionPage bc currentPage perPage =
     (case GetTxsOfSeqRange (chainDB bc) (perPage * currentPage) perPage of
        Inl err \<Rightarrow> Error err
      | Inr transactions \<Rightarrow>
          (case totalPageCount (Len (chainDB bc)) perPage of
             Inl p \<Rightarrow> Panicked p
           | Inr n \<Rightarrow> Value \<lparr>TotalPageCount = n, Transactions = transactions\<rparr>))"

subsection \<open>Shutdown\<close>

text \<open>
  The part of the engine that \<open>Close\<close> and \<open>service\<close> share: the channel \<open>quit\<close>, the
  dispatcher goroutine counted by the wait group \<open>wg\<close> (\<open>running\<close> from \<open>wg.Add(1)\<close>
  until the deferred \<open>wg.Done()\<close>), the notifications pending on \<open>TxChan()\<close>, and the
  transactions handed to \<open>TxAction\<close> so far.
\<close>

record Runtime =
  quitClosed :: bool
  running :: bool
  txChan :: "Transaction list"
  handled :: "Transaction list"

text \<open>\<open>Close\<close> (lines 85-87): \<open>close(bc.quit)\<close> and nothing else.\<close>

definition Close :: "Runtime \<Rightarrow> status \<times> Runtime" where
  "Close rt =
     (if quitClosed rt then (Panic CloseOfClosedChannel, rt)
      else (Ok, rt\<lparr>quitClosed := True\<rparr>))"

text \<open>One round of the \<open>select\<close> of \<open>service\<close> (lines 89-103). Go picks one of the
  cases that are ready; \<open>None\<close> when the case picked is not ready.\<close>

datatype select_case = QuitCase | TxCase

definition service_step :: "BlockChain \<Rightarrow> select_case \<Rightarrow> Runtime \<Rightarrow> (status \<times> Runtime) option" where
  "service_step bc sel rt =
     (if \<not> running rt then None
      else case sel of
        QuitCase \<Rightarrow> if quitClosed rt then Some (Ok, rt\<lparr>running := False\<rparr>) else None
      | TxCase \<Rightarrow>
          (case txChan rt of
             [] \<Rightarrow> None
           | tx # rest \<Rightarrow>
               (case TxAction (conf bc) of
                  None \<Rightarrow> Some (Panic NilDereference, rt\<lparr>txChan := rest, running := False\<rparr>)
                | Some action \<Rightarrow>
                    (case action tx of
                       Some e \<Rightarrow> Some (Panic (ActionFailed e), rt\<lparr>txChan := rest, running := False\<rparr>)
                     | None \<Rightarrow> Some (Ok, rt\<lparr>txChan := rest, handled := handled rt @ [tx]\<rparr>)))))"

section \<open>Verification rules\<close>

text \<open>The checks of the \<open>cipher\<close> library that the rules use.\<close>

record primitives =
  HashOK :: "Transaction \<Rightarrow> bool"
  SigByPK :: "PubKey \<Rightarrow> Transaction \<Rightarrow> bool"
  SigByAddr :: "Address \<Rightarrow> Transaction \<Rightarrow> bool"

definition EmptyTxHash :: TxHash where
  "EmptyTxHash = 0"

text \<open>
  Modelled from the spec: \<open>Transaction.Verify\<close> is not in the sources. Section 4.1,
  rules in order: (1) a claimed hash that is absent or inconsistent with the content is
  \<open>MalformedTransaction\<close>; (2) with no predecessor the candidate must be a creation,
  \<open>input_ref\<close> empty and the signature valid under the issuer key, else
  \<open>UnauthorizedCreation\<close>; (3) with a predecessor, \<open>input_ref\<close> must equal its hash,
  else \<open>StaleReference\<close>, and the signature must be valid under the owner recorded
  in its output, else \<open>InvalidSignature\<close>.
\<close>

definition Verify ::
  "(Transaction \<Rightarrow> TxHash) \<Rightarrow> primitives \<Rightarrow> Transaction \<Rightarrow> Transaction option \<Rightarrow> PubKey \<Rightarrow> error option" where
  "Verify hash p tx unspent creatorPK =
     (if \<not> HashOK p tx then Some MalformedTransaction
      else case unspent of
        None \<Rightarrow>
          if In tx = EmptyTxHash \<and> SigByPK p creatorPK tx then None
          else Some UnauthorizedCreation
      | Some prev \<Rightarrow>
          if In tx \<noteq> hash prev then Some StaleReference
          else if \<not> SigByAddr p (Out prev) tx then Some InvalidSignature
          else None)"

text \<open>
  Modelled from the spec: \<open>Transaction.IsKittyGen\<close> is not in the sources. Section 4.1
  rule 2 and the glossary: a creation transaction has an empty \<open>input_ref\<close> and is
  signed by the issuer key.
\<close>

definition IsKittyGen :: "primitives \<Rightarrow> Transaction \<Rightarrow> PubKey \<Rightarrow> bool" where
  "IsKittyGen p tx creatorPK \<longleftrightarrow> In tx = EmptyTxHash \<and> SigByPK p creatorPK tx"

definition SpecMethods ::
  "(Transaction \<Rightarrow> TxHash) \<Rightarrow> primitives \<Rightarrow> (PubKey \<Rightarrow> error option) \<Rightarrow> methods" where
  "SpecMethods hash p pkv =
     \<lparr>tx_Hash = hash, tx_Verify = Verify hash p, tx_IsKittyGen = IsKittyGen p, pk_Verify = pkv\<rparr>"

subsection \<open>Replay and sequential injection\<close>

text \<open>The replay as the specification words it (section 4.4): the transactions of the
  sequences 1 to \<open>length()-1\<close>, given as a list, are checked and applied in order, and the
  first failure ends the replay.\<close>

fun replay :: "methods \<Rightarrow> Transaction list \<Rightarrow> BlockChain \<Rightarrow> status \<times> BlockChain" where
  "replay m [] bc = (Ok, bc)"
| "replay m (tx # txs) bc =
     (case MakeTxChecker m bc tx of
        (Ok, bc1) \<Rightarrow> replay m txs bc1
      | (Err e, bc1) \<Rightarrow> (Err e, bc1)
      | (Panic p, bc1) \<Rightarrow> (Panic p, bc1))"

text \<open>Sequential injection of a list of transactions, each of which must be accepted.\<close>

fun InjectAll :: "methods \<Rightarrow> BlockChain \<Rightarrow> Transaction list \<Rightarrow> status \<times> BlockChain" where
  "InjectAll m bc [] = (Ok, bc)"
| "InjectAll m bc (tx # txs) =
     (case InjectTx m bc tx of
        (Ok, bc1) \<Rightarrow> InjectAll m bc1 txs
      | (Err e, bc1) \<Rightarrow> (Err e, bc1)
      | (Panic p, bc1) \<Rightarrow> (Panic p, bc1))"

subsection \<open>A small instance\<close>

text \<open>An instance of the hash and the checks on which concrete runs are evaluated: the
  signature names the signer, key 0 is invalid.\<close>

definition exHash :: "Transaction \<Rightarrow> TxHash" where
  "exHash t = 1 + 1000 * In t + 10 * ucast (KittyID t) + of_nat (Out t)"

definition exPrims :: primitives where
  "exPrims = \<lparr>HashOK = (\<lambda>t. True), SigByPK = (\<lambda>pk t. Sig t = pk), SigByAddr = (\<lambda>a t. Sig t = a)\<rparr>"

definition exMethods :: methods where
  "exMethods = SpecMethods exHash exPrims (\<lambda>pk. if pk = 0 then Some InvalidPubKey else None)"

definition exConfig :: BlockChainConfig where
  "exConfig = \<lparr>CreatorPK = 1, TxAction = None\<rparr>"

definition exGen :: Transaction where
  "exGen = \<lparr>KittyID = 7, In = 0, Out = 2, Sig = 1\<rparr>"

definition exMove :: Transaction where
  "exMove = \<lparr>KittyID = 7, In = 73, Out = 3, Sig = 2\<rparr>"

definition exMove2 :: Transaction where
  "exMove2 = \<lparr>KittyID = 7, In = 73, Out = 4, Sig = 2\<rparr>"

definition exEmpty :: BlockChain where
  "exEmpty = \<lparr>conf = exConfig, chainDB = [], stateDB = NewMemoryState\<rparr>"

definition exState1 :: StateDB where
  "exState1 = \<lparr>kitties = [7 \<mapsto> \<lparr>Owner = 2, Unspent = 73\<rparr>], holdings = (\<lambda>a. {})(2 := {7})\<rparr>"

definition exState2 :: StateDB where
  "exState2 = \<lparr>kitties = [7 \<mapsto> \<lparr>Owner = 3, Unspent = 73074\<rparr>],
                holdings = (\<lambda>a. {})(2 := {}, 3 := {7})\<rparr>"

text \<open>The zero value \<open>Transaction{}\<close>, as a placeholder at sequence 0.\<close>

definition exGenesis :: Transaction where
  "exGenesis = \<lparr>KittyID = 0, In = 0, Out = 0, Sig = 0\<rparr>"

definition exChain25 :: ChainDB where
  "exChain25 = map (\<lambda>i. exGen\<lparr>KittyID := word_of_nat i\<rparr>) [0..<25]"

section \<open>The checker leaves the log and the configuration alone\<close>

lemma MakeTxChecker_chainDB: "chainDB (snd (MakeTxChecker m bc tx)) = chainDB bc"
  by (simp add: MakeTxChecker_def split: sum.splits option.splits)

lemma MakeTxChecker_conf: "conf (snd (MakeTxChecker m bc tx)) = conf bc"
  by (simp add: MakeTxChecker_def split: sum.splits option.splits)

lemma uint64_less_Suc: "i < (n::uint64) \<Longrightarrow> unat (i + 1) = Suc (unat i)"
  by unat_arith

section \<open>Pagination: properties\<close>

lemma Len_unat: "length c < 2 ^ 64 \<Longrightarrow> unat (Len c) = length c"
  by (simp add: Len_def unat_of_nat)

lemma ceil_nat:
  assumes "0 < (p::nat)"
  shows "\<lceil>real n / real p\<rceil> = int (if n mod p = 0 then n div p else n div p + 1)"
proof (cases "n mod p = 0")
  case True
  then have "n = p * (n div p)" by auto
  then have "real n / real p = real (n div p)"
    using assms by (metis nonzero_mult_div_cancel_left of_nat_0_less_iff of_nat_mult less_numeral_extra(3))
  then show ?thesis using True by simp
next
  case False
  have n: "n = p * (n div p) + n mod p" by simp
  have r: "0 < n mod p" "n mod p < p" using False assms by auto
  have lo: "real (n div p) < real n / real p"
  proof -
    have "real p * real (n div p) < real n"
      using n r(1) by (metis less_add_same_cancel1 of_nat_less_iff of_nat_mult)
    then show ?thesis using assms by (simp add: pos_less_divide_eq mult.commute)
  qed
  have hi: "real n / real p \<le> real (n div p) + 1"
  proof -
    have "n \<le> p * (n div p) + p" using n r(2) by linarith
    then have "real n \<le> real p * (real (n div p) + 1)"
      by (metis distrib_left mult.right_neutral of_nat_add of_nat_le_iff of_nat_mult)
    then show ?thesis using assms by (simp add: pos_divide_le_eq mult.commute)
  qed
  have "\<lceil>real n / real p\<rceil> = int (n div p) + 1"
    using lo hi by (intro ceiling_eq) auto
  then show ?thesis using False by simp
qed

lemma totalPageCount_unat: assumes "pageSize \<noteq> 0"
  shows "\<exists>tp. totalPageCount n pageSize = Inr tp \<and> unat tp = (if unat n mod unat pageSize = 0 then unat n div unat pageSize else unat n div unat pageSize + 1)"
proof (cases "n mod pageSize = 0")
  case True
  then have "unat n mod unat pageSize = 0" by (metis unat_mod unat_0)
  then show ?thesis using assms True by (simp add: totalPageCount_def unat_div)
next
  case False
  then have nz: "unat n mod unat pageSize \<noteq> 0" by (metis unat_mod unat_eq_zero)
  have p0: "0 < unat pageSize" using assms by (simp add: unat_gt_0)
  have "unat pageSize \<noteq> 1" using nz by auto
  then have p2: "2 \<le> unat pageSize" using p0 by linarith
  have n64: "unat n < 2 ^ 64" using unsigned_less [of n] by simp
  have "unat n div unat pageSize \<le> unat n div 2"
    using p2 by (simp add: div_le_mono2)
  also have "\<dots> < 2 ^ 63" using n64 by simp
  finally have small: "unat (n div pageSize) + unat (1::uint64) < 2 ^ LENGTH(64)"
    by (simp add: unat_div)
  have "unat (n div pageSize + 1) = unat (n div pageSize) + unat (1::uint64)"
    using small by (simp only: unat_add_lem [THEN iffD1])
  then show ?thesis using assms False nz by (simp add: totalPageCount_def unat_div)
qed


text \<open>
  C4, as the claim states it, fails: the first sequence requested is the \<open>uint64\<close>
  product \<open>perPage*currentPage\<close>, which wraps. With \<open>perPage = currentPage = 2^32\<close> the
  product \<open>2^64\<close> lies beyond a log of length 1, yet the page holds the transaction of
  sequence 0.
\<close>

theorem C4_page_counterexample:
  "GetTransactionPage \<lparr>conf = exConfig, chainDB = [exGen], stateDB = NewMemoryState\<rparr>
       4294967296 4294967296
     = Value \<lparr>TotalPageCount = 1, Transactions = [exGen]\<rparr>
   \<and> length [exGen] \<le> unat (4294967296 :: uint64) * unat (4294967296 :: uint64)"
  by (simp add: GetTransactionPage_def GetTxsOfSeqRange_def totalPageCount_def Len_def)

text \<open>
  C4, amended. For a log of length \<open>L\<close> (below \<open>2^64\<close>, as \<open>Len\<close> returns a
  \<open>uint64\<close>), every page size \<open>p > 0\<close> and every page number \<open>c\<close>, the page reports
  \<open>ceil(L / p)\<close> pages and holds the transactions from sequence \<open>(p * c) mod 2^64\<close> on,
  at most \<open>p\<close> of them; for \<open>L = 25\<close>, \<open>p = 10\<close>, \<open>c = 0\<close> these are the sequences
  \<open>0..9\<close> and the page count is 3.
\<close>

theorem C4_page_amended:
  assumes "perPage \<noteq> 0" and "length (chainDB bc) < 2 ^ 64"
  shows "\<exists>tp. GetTransactionPage bc currentPage perPage =
           Value \<lparr>TotalPageCount = tp,
                  Transactions = take (unat perPage) (drop (unat (perPage * currentPage)) (chainDB bc))\<rparr>
         \<and> int (unat tp) = \<lceil>real (length (chainDB bc)) / real (unat perPage)\<rceil>
         \<and> unat (perPage * currentPage) = (unat perPage * unat currentPage) mod 2 ^ 64
         \<and> length (take (unat perPage) (drop (unat (perPage * currentPage)) (chainDB bc))) \<le> unat perPage
         \<and> (length (chainDB bc) = 25 \<and> perPage = 10 \<and> currentPage = 0 \<longrightarrow>
              tp = 3 \<and> take (unat perPage) (drop (unat (perPage * currentPage)) (chainDB bc)) = map (\<lambda>i. chainDB bc ! i) [0..<10])"
proof -
  obtain tp where tp: "totalPageCount (Len (chainDB bc)) perPage = Inr tp"
    and u: "unat tp = (if unat (Len (chainDB bc)) mod unat perPage = 0 then unat (Len (chainDB bc)) div unat perPage
                 else unat (Len (chainDB bc)) div unat perPage + 1)"
    using totalPageCount_unat [OF assms(1)] by blast
  have p0: "0 < unat perPage" using assms(1) by (simp add: unat_gt_0)
  have page: "GetTransactionPage bc currentPage perPage =
           Value \<lparr>TotalPageCount = tp,
                  Transactions = take (unat perPage) (drop (unat (perPage * currentPage)) (chainDB bc))\<rparr>"
    using assms(1) tp by (simp add: GetTransactionPage_def GetTxsOfSeqRange_def)
  have ceil: "int (unat tp) = \<lceil>real (length (chainDB bc)) / real (unat perPage)\<rceil>"
    using u ceil_nat [OF p0, of "length (chainDB bc)"] Len_unat [OF assms(2)] by simp
  have prod: "unat (perPage * currentPage) = (unat perPage * unat currentPage) mod 2 ^ 64"
    by (simp add: unat_word_ariths)
  have ex: "tp = 3 \<and> take (unat perPage) (drop (unat (perPage * currentPage)) (chainDB bc)) = map (\<lambda>i. chainDB bc ! i) [0..<10]"
    if h: "length (chainDB bc) = 25" "perPage = 10" "currentPage = 0"
  proof -
    have "unat tp = 3" using u h Len_unat [OF assms(2)] by simp
    then have "word_of_nat (unat tp) = (word_of_nat 3 :: uint64)" by simp
    then have "tp = 3" by simp
    moreover have "take 10 (chainDB bc) = map (\<lambda>i. chainDB bc ! i) [0..<10]"
      using h(1) by (simp add: list_eq_iff_nth_eq)
    ultimately show ?thesis using h by simp
  qed
  show ?thesis using page ceil prod ex by (intro exI [of _ tp]) simp
qed

theorem C4_page_amended_witness:
  "GetTransactionPage \<lparr>conf = exConfig, chainDB = exChain25, stateDB = NewMemoryState\<rparr> 0 10
     = Value \<lparr>TotalPageCount = 3, Transactions = map (\<lambda>i. exChain25 ! i) [0..<10]\<rparr>"
proof -
  have l: "length exChain25 = 25" by (simp add: exChain25_def)
  show ?thesis
    using C4_page_amended [of 10 "\<lparr>conf = exConfig, chainDB = exChain25, stateDB = NewMemoryState\<rparr>" 0] l
    by auto
qed

section \<open>Construction and the dispatcher\<close>

lemma InitState_loop_conf: "conf (snd (InitState_loop m i bc)) = conf bc"
proof (induction m i bc rule: InitState_loop.induct)
  case (1 m i bc)
  show ?case
  proof (cases "i < Len (chainDB bc)")
    case False
    then show ?thesis by (simp add: InitState_loop.simps [of m i bc])
  next
    case lt: True
    show ?thesis
    proof (cases "GetTxOfSeq (chainDB bc) i")
      case (Inl e)
      then show ?thesis using lt by (simp add: InitState_loop.simps [of m i bc])
    next
      case (Inr tx)
      obtain r bc1 where chk: "MakeTxChecker m bc tx = (r, bc1)" by (cases "MakeTxChecker m bc tx")
      have c1: "conf bc1 = conf bc" using MakeTxChecker_conf [of m bc tx] chk by simp
      show ?thesis
      proof (cases r)
        case Ok
        then have "conf (snd (InitState_loop m (i + 1) bc1)) = conf bc1"
          using "1.IH" [OF lt Inr chk [symmetric]] by simp
        then show ?thesis using lt Inr chk Ok c1 by (simp add: InitState_loop.simps [of m i bc])
      next
        case (Err e)
        then show ?thesis using lt Inr chk c1 by (simp add: InitState_loop.simps [of m i bc])
      next
        case (Panic p)
        then show ?thesis using lt Inr chk c1 by (simp add: InitState_loop.simps [of m i bc])
      qed
    qed
  qed
qed

lemma Prepare_TxAction:
  "TxAction (snd (Prepare m cc)) \<noteq> None \<and> (TxAction cc = None \<longrightarrow> TxAction (snd (Prepare m cc)) = Some (\<lambda>tx. None))"
  by (simp add: Prepare_def Let_def split: option.splits)

lemma Prepare_error: "pk_Verify m (CreatorPK cc) = Some e \<Longrightarrow> fst (Prepare m cc) = Some e"
  by (simp add: Prepare_def Let_def split: option.splits)

lemma NewBlockChain_Value:
  assumes "NewBlockChain m config cdb sdb = Value bc"
  shows "fst (Prepare m config) = None \<and>
         InitState m \<lparr>conf = snd (Prepare m config), chainDB = cdb, stateDB = sdb\<rparr> = (Ok, bc)"
  using assms
  by (cases "Prepare m config")
     (auto simp: NewBlockChain_def split: option.splits prod.splits status.splits)

text \<open>
  C10. \<open>NewBlockChain\<close> returns the error of the key check, and no engine, when the
  issuer public key fails verification. An engine that is returned holds a hook that
  is not \<open>nil\<close>: a \<open>nil\<close> hook of the configuration has been replaced by the hook
  that does nothing, before the dispatcher is started, and no round of the dispatcher
  panics on a \<open>nil\<close> hook.
\<close>

theorem C10_construction:
  "(pk_Verify m (CreatorPK config) = Some e \<longrightarrow> NewBlockChain m config cdb sdb = Error e)
   \<and> (NewBlockChain m config cdb sdb = Value bc \<longrightarrow>
        TxAction (conf bc) \<noteq> None
        \<and> (TxAction config = None \<longrightarrow> TxAction (conf bc) = Some (\<lambda>tx. None))
        \<and> (\<forall>sel rt r rt1. service_step bc sel rt = Some (r, rt1) \<longrightarrow> r \<noteq> Panic NilDereference))"
proof (intro conjI impI)
  assume "pk_Verify m (CreatorPK config) = Some e"
  then show "NewBlockChain m config cdb sdb = Error e"
    using Prepare_error [of m config e]
    by (cases "Prepare m config") (simp add: NewBlockChain_def)
next
  assume v: "NewBlockChain m config cdb sdb = Value bc"
  have "conf bc = snd (Prepare m config)"
    using NewBlockChain_Value [OF v]
      InitState_loop_conf [of m 1 "\<lparr>conf = snd (Prepare m config), chainDB = cdb, stateDB = sdb\<rparr>"]
    by (simp add: InitState_def)
  then have a: "TxAction (conf bc) \<noteq> None"
    and b: "TxAction config = None \<longrightarrow> TxAction (conf bc) = Some (\<lambda>tx. None)"
    using Prepare_TxAction [of m config] by simp_all
  show "TxAction (conf bc) \<noteq> None" by (rule a)
  show "TxAction (conf bc) = Some (\<lambda>tx. None)" if "TxAction config = None"
    using b that by simp
  show "\<forall>sel rt r rt1. service_step bc sel rt = Some (r, rt1) \<longrightarrow> r \<noteq> Panic NilDereference"
    using a by (auto simp: service_step_def split: if_splits select_case.splits list.splits option.splits)
qed

theorem C10_construction_witness:
  "NewBlockChain exMethods \<lparr>CreatorPK = 0, TxAction = None\<rparr> [] NewMemoryState = Error InvalidPubKey
   \<and> NewBlockChain exMethods exConfig [] NewMemoryState
       = Value \<lparr>conf = \<lparr>CreatorPK = 1, TxAction = Some (\<lambda>tx. None)\<rparr>, chainDB = [], stateDB = NewMemoryState\<rparr>
   \<and> service_step \<lparr>conf = \<lparr>CreatorPK = 1, TxAction = Some (\<lambda>tx. None)\<rparr>, chainDB = [], stateDB = NewMemoryState\<rparr>
         TxCase \<lparr>quitClosed = False, running = True, txChan = [exGen], handled = []\<rparr>
       = Some (Ok, \<lparr>quitClosed = False, running = True, txChan = [], handled = [exGen]\<rparr>)"
proof -
  have pk: "pk_Verify exMethods (CreatorPK \<lparr>CreatorPK = 0, TxAction = None\<rparr>) = Some InvalidPubKey"
    by (simp add: exMethods_def SpecMethods_def)
  have a: "NewBlockChain exMethods \<lparr>CreatorPK = 0, TxAction = None\<rparr> [] NewMemoryState = Error InvalidPubKey"
    using C10_construction [of exMethods "\<lparr>CreatorPK = 0, TxAction = None\<rparr>" InvalidPubKey "[]" NewMemoryState] pk
    by simp
  have b: "NewBlockChain exMethods exConfig [] NewMemoryState
       = Value \<lparr>conf = \<lparr>CreatorPK = 1, TxAction = Some (\<lambda>tx. None)\<rparr>, chainDB = [], stateDB = NewMemoryState\<rparr>"
    by (simp add: NewBlockChain_def Prepare_def exConfig_def exMethods_def SpecMethods_def
          InitState_def InitState_loop.simps [of _ 1] Len_def)
  show ?thesis using a b by (simp add: service_step_def)
qed

section \<open>The transaction checker and injection\<close>

lemma InjectTx_cases:
  "InjectTx m bc tx =
     (case MakeTxChecker m bc tx of
        (Ok, bc1) \<Rightarrow> (Ok, bc1\<lparr>chainDB := chainDB bc @ [tx]\<rparr>)
      | (Err e, bc1) \<Rightarrow> (Err e, bc1)
      | (Panic p, bc1) \<Rightarrow> (Panic p, bc1))"
  using MakeTxChecker_chainDB [of m bc tx]
  by (cases "MakeTxChecker m bc tx") (auto simp: InjectTx_def AddTx_def split: status.splits)

lemma MakeTxChecker_rejected:
  "MakeTxChecker m bc tx = (r, bc1) \<Longrightarrow> r \<noteq> Ok \<Longrightarrow> bc1 = bc"
  by (auto simp: MakeTxChecker_def split: sum.splits option.splits if_splits)

lemma MakeTxChecker_Ok:
  "MakeTxChecker m bc tx = (Ok, bc1) \<Longrightarrow>
     \<exists>unspent. lookupUnspent m bc tx = Inr unspent \<and>
       tx_Verify m tx unspent (CreatorPK (conf bc)) = None"
  by (auto simp: MakeTxChecker_def split: sum.splits option.splits if_splits)

lemma MakeTxChecker_verify_fails:
  "lookupUnspent m bc tx = Inr unspent \<Longrightarrow> tx_Verify m tx unspent (CreatorPK (conf bc)) = Some e \<Longrightarrow>
     MakeTxChecker m bc tx = (Err e, bc)"
  by (simp add: MakeTxChecker_def)

lemma GetTxOfHash_snoc:
  "\<exists>prev. GetTxOfHash m (c @ [t]) (tx_Hash m t) = Inr prev \<and> tx_Hash m prev = tx_Hash m t"
proof (cases "find (\<lambda>x. tx_Hash m x = tx_Hash m t) (c @ [t])")
  case None
  have "t \<in> set (c @ [t])" by simp
  then show ?thesis using None unfolding find_None_iff by blast
next
  case (Some prev)
  then have "tx_Hash m prev = tx_Hash m t" by (auto simp: find_Some_iff)
  then show ?thesis using Some by (simp add: GetTxOfHash_def)
qed

lemma accepted_transfer_advances:
  assumes chk: "MakeTxChecker m bc t1 = (Ok, b)"
    and cur: "GetKittyUnspentTx (stateDB bc) (KittyID t1) = Some H"
  shows "GetKittyUnspentTx (stateDB b) (KittyID t1) = Some (tx_Hash m t1)"
  using assms
  by (auto simp: MakeTxChecker_def GetKittyUnspentTx_def AddKitty_def MoveKitty_def Let_def
           split: sum.splits option.splits if_splits)

lemma exHash_exGen: "exHash exGen = 73"
  by (simp add: exHash_def exGen_def)

lemma exHash_exMove: "exHash exMove = 73074"
  by (simp add: exHash_def exMove_def)

lemma ex_checker_gen:
  "MakeTxChecker exMethods \<lparr>conf = exConfig, chainDB = c, stateDB = NewMemoryState\<rparr> exGen
     = (Ok, \<lparr>conf = exConfig, chainDB = c, stateDB = exState1\<rparr>)"
  by (simp add: MakeTxChecker_def lookupUnspent_def GetKittyUnspentTx_def NewMemoryState_def
        exMethods_def SpecMethods_def Verify_def IsKittyGen_def exPrims_def EmptyTxHash_def
        exConfig_def AddKitty_def exState1_def exHash_exGen)
     (simp add: exGen_def)

lemma ex_find_gen: "GetTxOfHash exMethods (exGen # c) 73 = Inr exGen"
  by (simp add: GetTxOfHash_def exMethods_def SpecMethods_def exHash_exGen)

lemma ex_checker_move:
  "MakeTxChecker exMethods \<lparr>conf = exConfig, chainDB = exGen # c, stateDB = exState1\<rparr> exMove
     = (Ok, \<lparr>conf = exConfig, chainDB = exGen # c, stateDB = exState2\<rparr>)"
  apply (simp add: MakeTxChecker_def lookupUnspent_def GetKittyUnspentTx_def exState1_def ex_find_gen)
  apply (simp add: exMethods_def SpecMethods_def Verify_def IsKittyGen_def exPrims_def
      EmptyTxHash_def exConfig_def exHash_exGen exHash_exMove MoveKitty_def exState2_def)
  apply (simp add: exGen_def exMove_def fun_upd_twist)
  done

lemma ex_inject_gen:
  "InjectTx exMethods exEmpty exGen = (Ok, \<lparr>conf = exConfig, chainDB = [exGen], stateDB = exState1\<rparr>)"
  by (simp add: InjectTx_cases exEmpty_def ex_checker_gen)

lemma ex_inject_move:
  "InjectTx exMethods \<lparr>conf = exConfig, chainDB = [exGen], stateDB = exState1\<rparr> exMove
     = (Ok, \<lparr>conf = exConfig, chainDB = [exGen, exMove], stateDB = exState2\<rparr>)"
  by (simp add: InjectTx_cases ex_checker_move)

text \<open>
  C9. With the verification rules of the specification, a candidate that is not a
  generation transaction is rejected by the verification against a \<open>nil\<close>
  predecessor; so the checker never reaches \<open>unspent.Out\<close> with \<open>unspent\<close> being
  \<open>nil\<close>, and it never panics.
\<close>

theorem C9_no_nil_dereference:
  "(\<not> IsKittyGen p tx pk \<longrightarrow> Verify h p tx None pk \<noteq> None)
   \<and> (\<forall>q. fst (MakeTxChecker (SpecMethods h p pkv) bc tx) \<noteq> Panic q)"
  by (auto simp: MakeTxChecker_def SpecMethods_def Verify_def IsKittyGen_def
           split: sum.splits option.splits if_splits)

theorem C9_no_nil_dereference_witness:
  "\<not> IsKittyGen exPrims exMove 1
   \<and> Verify exHash exPrims exMove None 1 = Some UnauthorizedCreation
   \<and> MakeTxChecker exMethods exEmpty exMove = (Err UnauthorizedCreation, exEmpty)"
proof -
  have g: "\<not> IsKittyGen exPrims exMove 1"
    by (simp add: IsKittyGen_def EmptyTxHash_def exMove_def)
  have "Verify exHash exPrims exMove None 1 \<noteq> None"
    using C9_no_nil_dereference [of exPrims exMove 1 exHash] g by simp
  then have v: "Verify exHash exPrims exMove None 1 = Some UnauthorizedCreation"
    by (simp add: Verify_def exPrims_def split: if_splits)
  have "MakeTxChecker exMethods exEmpty exMove = (Err UnauthorizedCreation, exEmpty)"
    using v by (simp add: MakeTxChecker_def lookupUnspent_def GetKittyUnspentTx_def exEmpty_def
        NewMemoryState_def exMethods_def SpecMethods_def exConfig_def)
  then show ?thesis using g v by simp
qed

text \<open>
  C2. For every candidate, \<open>InjectTx\<close> takes as predecessor the unspent transaction
  of the candidate's asset: the projection's hash for the asset, fetched from the chain
  log, and \<open>nil\<close> when the projection has no record of the asset. A failed fetch and
  a failed verification against exactly that predecessor and the issuer public key are
  returned with the engine unchanged; whenever the engine has changed (projection or
  log), the verification against that predecessor had succeeded.
\<close>

theorem C2_inject_verifies_against_unspent:
  "lookupUnspent m bc tx =
     (case GetKittyUnspentTx (stateDB bc) (KittyID tx) of
        None \<Rightarrow> Inr None
      | Some h \<Rightarrow> (case GetTxOfHash m (chainDB bc) h of Inl e \<Rightarrow> Inl e | Inr prev \<Rightarrow> Inr (Some prev)))
   \<and> (\<forall>e. lookupUnspent m bc tx = Inl e \<longrightarrow> InjectTx m bc tx = (Err e, bc))
   \<and> (\<forall>unspent e. lookupUnspent m bc tx = Inr unspent \<longrightarrow>
         tx_Verify m tx unspent (CreatorPK (conf bc)) = Some e \<longrightarrow> InjectTx m bc tx = (Err e, bc))
   \<and> (snd (InjectTx m bc tx) \<noteq> bc \<longrightarrow>
        (\<exists>unspent. lookupUnspent m bc tx = Inr unspent \<and>
           tx_Verify m tx unspent (CreatorPK (conf bc)) = None))"
proof (intro conjI allI impI)
  show "lookupUnspent m bc tx =
     (case GetKittyUnspentTx (stateDB bc) (KittyID tx) of
        None \<Rightarrow> Inr None
      | Some h \<Rightarrow> (case GetTxOfHash m (chainDB bc) h of Inl e \<Rightarrow> Inl e | Inr prev \<Rightarrow> Inr (Some prev)))"
    by (simp add: lookupUnspent_def)
next
  fix e assume "lookupUnspent m bc tx = Inl e"
  then show "InjectTx m bc tx = (Err e, bc)"
    by (simp add: InjectTx_cases MakeTxChecker_def)
next
  fix unspent e
  assume "lookupUnspent m bc tx = Inr unspent"
    and "tx_Verify m tx unspent (CreatorPK (conf bc)) = Some e"
  then show "InjectTx m bc tx = (Err e, bc)"
    by (simp add: InjectTx_cases MakeTxChecker_verify_fails)
next
  assume ch: "snd (InjectTx m bc tx) \<noteq> bc"
  obtain r bc1 where chk: "MakeTxChecker m bc tx = (r, bc1)" by (cases "MakeTxChecker m bc tx")
  have "r = Ok"
  proof (rule ccontr)
    assume "r \<noteq> Ok"
    then have "bc1 = bc" using MakeTxChecker_rejected [OF chk] by simp
    then show False using ch chk \<open>r \<noteq> Ok\<close> by (cases r) (simp_all add: InjectTx_cases)
  qed
  then show "\<exists>unspent. lookupUnspent m bc tx = Inr unspent \<and>
           tx_Verify m tx unspent (CreatorPK (conf bc)) = None"
    using MakeTxChecker_Ok [of m bc tx bc1] chk by simp
qed

theorem C2_inject_verifies_against_unspent_witness:
  "lookupUnspent exMethods \<lparr>conf = exConfig, chainDB = [exGen], stateDB = exState1\<rparr> exMove2 = Inr (Some exGen)
   \<and> tx_Verify exMethods exMove2 (Some exGen) (CreatorPK exConfig) = None
   \<and> snd (InjectTx exMethods \<lparr>conf = exConfig, chainDB = [exGen], stateDB = exState1\<rparr> exMove2)
       \<noteq> \<lparr>conf = exConfig, chainDB = [exGen], stateDB = exState1\<rparr>
   \<and> InjectTx exMethods exEmpty exMove = (Err UnauthorizedCreation, exEmpty)"
proof -
  let ?bc = "\<lparr>conf = exConfig, chainDB = [exGen], stateDB = exState1\<rparr>"
  have l: "lookupUnspent exMethods ?bc exMove2 = Inr (Some exGen)"
    using C2_inject_verifies_against_unspent [of exMethods ?bc exMove2]
    by (simp add: GetKittyUnspentTx_def exState1_def ex_find_gen exMove2_def)
  have v: "tx_Verify exMethods exMove2 (Some exGen) (CreatorPK exConfig) = None"
    by (simp add: exMethods_def SpecMethods_def Verify_def exPrims_def exHash_exGen)
       (simp add: exMove2_def exGen_def)
  have l0: "lookupUnspent exMethods exEmpty exMove = Inr None"
    by (simp add: lookupUnspent_def exEmpty_def GetKittyUnspentTx_def NewMemoryState_def)
  have v0: "tx_Verify exMethods exMove None (CreatorPK (conf exEmpty)) = Some UnauthorizedCreation"
    by (simp add: exMethods_def SpecMethods_def Verify_def exPrims_def EmptyTxHash_def exMove_def)
  have r: "InjectTx exMethods exEmpty exMove = (Err UnauthorizedCreation, exEmpty)"
    using C2_inject_verifies_against_unspent [of exMethods exEmpty exMove] l0 v0 by simp
  have "chainDB (snd (InjectTx exMethods ?bc exMove2)) \<noteq> chainDB ?bc"
    apply (simp add: InjectTx_cases MakeTxChecker_def l v)
    apply (simp add: exMethods_def SpecMethods_def IsKittyGen_def EmptyTxHash_def  MoveKitty_def exState1_def)
    apply (simp add: exMove2_def exGen_def)
    done
  then have ne: "snd (InjectTx exMethods ?bc exMove2) \<noteq> ?bc" by auto
  show ?thesis using l v ne r by simp
qed

text \<open>
  C7, as the claim states it, fails on the order: the projection is written by the
  validation hook, which \<open>AddTx\<close> runs before the physical append. On the empty
  engine the hook returns with the asset 7 recorded in the projection while the log is
  still empty; the append follows.
\<close>

theorem C7_inject_counterexample:
  "fst (MakeTxChecker exMethods exEmpty exGen) = Ok
   \<and> GetKittyUnspentTx (stateDB (snd (MakeTxChecker exMethods exEmpty exGen))) 7 = Some 73
   \<and> chainDB (snd (MakeTxChecker exMethods exEmpty exGen)) = []
   \<and> InjectTx exMethods exEmpty exGen
       = AddTx exGen (MakeTxChecker exMethods) exEmpty
   \<and> AddTx exGen (MakeTxChecker exMethods) exEmpty
       = (Ok, (snd (MakeTxChecker exMethods exEmpty exGen))\<lparr>chainDB := [exGen]\<rparr>)"
  by (simp add: InjectTx_def AddTx_def exEmpty_def ex_checker_gen GetKittyUnspentTx_def exState1_def)

text \<open>
  C7, amended. An accepted injection has passed the verification against the unspent
  predecessor, has applied the transaction to the projection in the validation hook and
  has then appended exactly this transaction to the log; so no transaction is persisted
  without having passed verification. A rejected injection, and in particular one whose
  verification fails, returns with the chain log and the projection unchanged.
\<close>

theorem C7_inject_amended:
  "(\<forall>bc1. InjectTx m bc tx = (Ok, bc1) \<longrightarrow>
        (\<exists>unspent. lookupUnspent m bc tx = Inr unspent \<and>
           tx_Verify m tx unspent (CreatorPK (conf bc)) = None)
        \<and> MakeTxChecker m bc tx = (Ok, bc1\<lparr>chainDB := chainDB bc\<rparr>)
        \<and> chainDB bc1 = chainDB bc @ [tx])
   \<and> (fst (InjectTx m bc tx) \<noteq> Ok \<longrightarrow> snd (InjectTx m bc tx) = bc)
   \<and> (\<forall>unspent e. lookupUnspent m bc tx = Inr unspent \<longrightarrow>
         tx_Verify m tx unspent (CreatorPK (conf bc)) = Some e \<longrightarrow> InjectTx m bc tx = (Err e, bc))"
proof (intro conjI allI impI)
  fix bc1 assume acc: "InjectTx m bc tx = (Ok, bc1)"
  obtain r b where chk: "MakeTxChecker m bc tx = (r, b)" by (cases "MakeTxChecker m bc tx")
  have r: "r = Ok" and bc1: "bc1 = b\<lparr>chainDB := chainDB bc @ [tx]\<rparr>"
    using acc chk by (cases r; simp add: InjectTx_cases)+
  have cb: "chainDB b = chainDB bc" using MakeTxChecker_chainDB [of m bc tx] chk by simp
  show "\<exists>unspent. lookupUnspent m bc tx = Inr unspent \<and>
           tx_Verify m tx unspent (CreatorPK (conf bc)) = None"
    using MakeTxChecker_Ok [of m bc tx b] chk r by simp
  have "bc1\<lparr>chainDB := chainDB bc\<rparr> = b" using bc1 cb by simp
  then show "MakeTxChecker m bc tx = (Ok, bc1\<lparr>chainDB := chainDB bc\<rparr>)" using chk r by simp
  show "chainDB bc1 = chainDB bc @ [tx]" using bc1 by simp
next
  assume rej: "fst (InjectTx m bc tx) \<noteq> Ok"
  obtain r b where chk: "MakeTxChecker m bc tx = (r, b)" by (cases "MakeTxChecker m bc tx")
  have "r \<noteq> Ok" using rej chk by (cases r) (simp_all add: InjectTx_cases)
  then have "b = bc" using MakeTxChecker_rejected [OF chk] by simp
  then show "snd (InjectTx m bc tx) = bc" using chk \<open>r \<noteq> Ok\<close> by (cases r) (simp_all add: InjectTx_cases)
next
  fix unspent e
  assume "lookupUnspent m bc tx = Inr unspent"
    and "tx_Verify m tx unspent (CreatorPK (conf bc)) = Some e"
  then show "InjectTx m bc tx = (Err e, bc)"
    by (simp add: InjectTx_cases MakeTxChecker_verify_fails)
qed

theorem C7_inject_amended_witness:
  "InjectTx exMethods exEmpty exGen = (Ok, \<lparr>conf = exConfig, chainDB = [exGen], stateDB = exState1\<rparr>)
   \<and> MakeTxChecker exMethods exEmpty exGen = (Ok, \<lparr>conf = exConfig, chainDB = [], stateDB = exState1\<rparr>)
   \<and> InjectTx exMethods exEmpty exMove = (Err UnauthorizedCreation, exEmpty)"
proof -
  have l0: "lookupUnspent exMethods exEmpty exMove = Inr None"
    by (simp add: lookupUnspent_def exEmpty_def GetKittyUnspentTx_def NewMemoryState_def)
  have v0: "tx_Verify exMethods exMove None (CreatorPK (conf exEmpty)) = Some UnauthorizedCreation"
    by (simp add: exMethods_def SpecMethods_def Verify_def exPrims_def EmptyTxHash_def exMove_def)
  have r: "InjectTx exMethods exEmpty exMove = (Err UnauthorizedCreation, exEmpty)"
    using C7_inject_amended [of exMethods exEmpty exMove] l0 v0 by simp
  have "MakeTxChecker exMethods exEmpty exGen = (Ok, \<lparr>conf = exConfig, chainDB = [], stateDB = exState1\<rparr>)"
    using C7_inject_amended [of exMethods exEmpty exGen] ex_inject_gen by (simp add: exEmpty_def)
  then show ?thesis using r ex_inject_gen by simp
qed

text \<open>
  C1. Let \<open>H\<close> be the unspent pointer of an asset, and let a transfer \<open>t1\<close> of the
  asset be accepted and advance the pointer to its own hash, different from \<open>H\<close>.
  Then a second transfer \<open>t2\<close> of the asset whose input still is \<open>H\<close> is rejected
  and leaves the engine (owner, unspent pointer, log) unchanged; the error is
  \<open>StaleReference\<close> for every candidate that passes the hash check of rule 1.
\<close>

theorem C1_stale_reference_rejected:
  assumes acc: "InjectTx (SpecMethods h p pkv) bc t1 = (Ok, bc1)"
    and cur: "GetKittyUnspentTx (stateDB bc) (KittyID t1) = Some H"
    and adv: "h t1 \<noteq> H"
    and same: "KittyID t2 = KittyID t1"
    and ref: "In t2 = H"
  shows "GetKittyUnspentTx (stateDB bc1) (KittyID t1) = Some (h t1)
         \<and> (\<exists>e. InjectTx (SpecMethods h p pkv) bc1 t2 = (Err e, bc1))
         \<and> (HashOK p t2 \<longrightarrow> InjectTx (SpecMethods h p pkv) bc1 t2 = (Err StaleReference, bc1))"
proof -
  let ?m = "SpecMethods h p pkv"
  have hm: "tx_Hash ?m = h" by (simp add: SpecMethods_def)
  obtain r b where chk: "MakeTxChecker ?m bc t1 = (r, b)" by (cases "MakeTxChecker ?m bc t1")
  have r: "r = Ok" and bc1: "bc1 = b\<lparr>chainDB := chainDB bc @ [t1]\<rparr>"
    using acc chk by (cases r; simp add: InjectTx_cases)+
  have ptr: "GetKittyUnspentTx (stateDB bc1) (KittyID t1) = Some (h t1)"
    using accepted_transfer_advances [of ?m bc t1 b H] chk r cur bc1 hm by simp
  have cb: "chainDB bc1 = chainDB bc @ [t1]" using bc1 by simp
  obtain prev where prev: "GetTxOfHash ?m (chainDB bc1) (h t1) = Inr prev" and hp: "h prev = h t1"
    using GetTxOfHash_snoc [of ?m "chainDB bc" t1] cb hm by auto
  have look: "lookupUnspent ?m bc1 t2 = Inr (Some prev)"
    using ptr prev same by (simp add: lookupUnspent_def)
  have ver: "tx_Verify ?m t2 (Some prev) (CreatorPK (conf bc1))
               = Some (if HashOK p t2 then StaleReference else MalformedTransaction)"
    using ref adv hp by (simp add: SpecMethods_def Verify_def)
  have "InjectTx ?m bc1 t2 = (Err (if HashOK p t2 then StaleReference else MalformedTransaction), bc1)"
    using look ver by (simp add: InjectTx_cases MakeTxChecker_verify_fails)
  then show ?thesis using ptr by simp
qed

theorem C1_stale_reference_rejected_witness:
  "InjectTx exMethods \<lparr>conf = exConfig, chainDB = [exGen], stateDB = exState1\<rparr> exMove
     = (Ok, \<lparr>conf = exConfig, chainDB = [exGen, exMove], stateDB = exState2\<rparr>)
   \<and> GetKittyUnspentTx exState1 7 = Some 73
   \<and> GetKittyUnspentTx exState2 7 = Some 73074
   \<and> In exMove2 = 73
   \<and> InjectTx exMethods \<lparr>conf = exConfig, chainDB = [exGen, exMove], stateDB = exState2\<rparr> exMove2
       = (Err StaleReference, \<lparr>conf = exConfig, chainDB = [exGen, exMove], stateDB = exState2\<rparr>)"
proof -
  let ?bc = "\<lparr>conf = exConfig, chainDB = [exGen], stateDB = exState1\<rparr>"
  let ?bc1 = "\<lparr>conf = exConfig, chainDB = [exGen, exMove], stateDB = exState2\<rparr>"
  let ?pkv = "\<lambda>pk::nat. if pk = 0 then Some InvalidPubKey else None"
  have acc: "InjectTx (SpecMethods exHash exPrims ?pkv) ?bc exMove = (Ok, ?bc1)"
    using ex_inject_move by (simp add: exMethods_def)
  have cur: "GetKittyUnspentTx (stateDB ?bc) (KittyID exMove) = Some 73"
    by (simp add: GetKittyUnspentTx_def exState1_def exMove_def)
  have adv: "exHash exMove \<noteq> 73" by (simp add: exHash_exMove)
  have same: "KittyID exMove2 = KittyID exMove" by (simp add: exMove_def exMove2_def)
  have ref: "In exMove2 = 73" by (simp add: exMove2_def)
  have ok: "HashOK exPrims exMove2" by (simp add: exPrims_def)
  have "InjectTx (SpecMethods exHash exPrims ?pkv) ?bc1 exMove2 = (Err StaleReference, ?bc1)"
    using C1_stale_reference_rejected [OF acc cur adv same ref] ok by simp
  moreover have "GetKittyUnspentTx exState2 7 = Some 73074"
    by (simp add: GetKittyUnspentTx_def exState2_def)
  ultimately show ?thesis using acc cur ref by (simp add: exMethods_def exMove_def)
qed

section \<open>Startup replay\<close>

lemma InitState_loop_replay:
  "length (chainDB bc) < 2 ^ 64 \<Longrightarrow>
     InitState_loop m i bc = replay m (drop (unat i) (chainDB bc)) bc"
proof (induction m i bc rule: InitState_loop.induct)
  case (1 m i bc)
  have len: "unat (Len (chainDB bc)) = length (chainDB bc)"
    using "1.prems" by (rule Len_unat)
  show ?case
  proof (cases "i < Len (chainDB bc)")
    case False
    then have "length (chainDB bc) \<le> unat i" using len by (simp add: word_less_nat_alt)
    then show ?thesis using False by (simp add: InitState_loop.simps [of m i bc])
  next
    case lt: True
    then have ui: "unat i < length (chainDB bc)" using len by (simp add: word_less_nat_alt)
    let ?tx = "chainDB bc ! unat i"
    have get: "GetTxOfSeq (chainDB bc) i = Inr ?tx" using ui by (simp add: GetTxOfSeq_def)
    have dr: "drop (unat i) (chainDB bc) = ?tx # drop (Suc (unat i)) (chainDB bc)"
      using ui by (simp add: Cons_nth_drop_Suc)
    obtain r bc1 where chk: "MakeTxChecker m bc ?tx = (r, bc1)" by (cases "MakeTxChecker m bc ?tx")
    have c1: "chainDB bc1 = chainDB bc" using MakeTxChecker_chainDB [of m bc ?tx] chk by simp
    show ?thesis
    proof (cases r)
      case Ok
      have "InitState_loop m (i + 1) bc1 = replay m (drop (unat (i + 1)) (chainDB bc1)) bc1"
        using "1.IH" [OF lt get chk [symmetric] Ok] "1.prems" c1 by simp
      then have "InitState_loop m (i + 1) bc1 = replay m (drop (Suc (unat i)) (chainDB bc)) bc1"
        using c1 uint64_less_Suc [OF lt] by simp
      then show ?thesis using lt get chk Ok dr by (simp add: InitState_loop.simps [of m i bc])
    next
      case (Err e)
      then show ?thesis using lt get chk dr by (simp add: InitState_loop.simps [of m i bc])
    next
      case (Panic p)
      then show ?thesis using lt get chk dr by (simp add: InitState_loop.simps [of m i bc])
    qed
  qed
qed

lemma InitState_replay:
  "length (chainDB bc) < 2 ^ 64 \<Longrightarrow> InitState m bc = replay m (drop 1 (chainDB bc)) bc"
  using InitState_loop_replay [of bc m 1] by (simp add: InitState_def)

lemma replay_append:
  "replay m (pre @ post) bc =
     (case replay m pre bc of
        (Ok, bc1) \<Rightarrow> replay m post bc1
      | (Err e, bc1) \<Rightarrow> (Err e, bc1)
      | (Panic p, bc1) \<Rightarrow> (Panic p, bc1))"
proof (induction pre arbitrary: bc)
  case Nil
  then show ?case by simp
next
  case (Cons tx pre)
  obtain r bc1 where chk: "MakeTxChecker m bc tx = (r, bc1)" by (cases "MakeTxChecker m bc tx")
  show ?case using chk Cons.IH [of bc1] by (cases r) simp_all
qed

lemma replay_stops:
  assumes "replay m pre bc = (Ok, bck)" and "fst (MakeTxChecker m bck tx) = r" and "r \<noteq> Ok"
  shows "fst (replay m (pre @ tx # post) bc) = r"
proof -
  obtain bc1 where chk: "MakeTxChecker m bck tx = (r, bc1)"
    using assms(2) by (cases "MakeTxChecker m bck tx") simp
  show ?thesis using assms(1,3) chk by (cases r) (simp_all add: replay_append)
qed

lemma replay_frame:
  "conf (snd (replay m txs bc)) = conf bc \<and> chainDB (snd (replay m txs bc)) = chainDB bc"
proof (induction txs arbitrary: bc)
  case Nil
  then show ?case by simp
next
  case (Cons tx txs)
  obtain r bc1 where chk: "MakeTxChecker m bc tx = (r, bc1)" by (cases "MakeTxChecker m bc tx")
  have f: "conf bc1 = conf bc" "chainDB bc1 = chainDB bc"
    using MakeTxChecker_conf [of m bc tx] MakeTxChecker_chainDB [of m bc tx] chk by simp_all
  show ?case using chk f Cons.IH [of bc1] by (cases r) simp_all
qed

lemma replay_Ok_each:
  assumes "replay m (pre @ tx # post) bc = (Ok, bcN)"
  shows "\<exists>bck bck1. replay m pre bc = (Ok, bck) \<and> MakeTxChecker m bck tx = (Ok, bck1)"
proof -
  obtain r bck where p: "replay m pre bc = (r, bck)" by (cases "replay m pre bc")
  have r: "r = Ok" using assms p by (cases r) (simp_all add: replay_append)
  obtain q bck1 where c: "MakeTxChecker m bck tx = (q, bck1)" by (cases "MakeTxChecker m bck tx")
  have "q = Ok" using assms p r c by (cases q) (simp_all add: replay_append)
  then show ?thesis using p r c by blast
qed

lemma ex_find_after_genesis:
  "GetTxOfHash exMethods (exGenesis # exGen # c) 73 = Inr exGen"
proof -
  have "exHash exGenesis \<noteq> 73" by (simp add: exHash_def exGenesis_def)
  then show ?thesis
    by (simp add: GetTxOfHash_def exMethods_def SpecMethods_def exHash_exGen)
qed

lemma ex_find_move_after_genesis:
  "GetTxOfHash exMethods (exGenesis # exGen # exMove # c) 73074 = Inr exMove"
proof -
  have "exHash exGenesis \<noteq> 73074" by (simp add: exHash_def exGenesis_def)
  then show ?thesis
    by (simp add: GetTxOfHash_def exMethods_def SpecMethods_def exHash_exGen exHash_exMove)
qed

text \<open>
  C5. On a log of length below \<open>2^64\<close>, \<open>InitState\<close> runs the checker on the
  transactions of the sequences 1 to \<open>length()-1\<close> in order, starting from the engine
  that \<open>NewBlockChain\<close> builds; on a log of length 0 or 1 it succeeds and changes
  nothing. At each transaction reached, on the engine left by the ones before it (same
  configuration and log), the checker accepts exactly when the lookup of the unspent
  predecessor succeeds, the verification against it and the issuer key succeeds, and
  \<open>AddKitty\<close> (generation) or \<open>MoveKitty\<close> (transfer, from the predecessor's owner)
  succeeds; the engine then holds the projection these return, in which the asset has
  the transaction's output as owner and its hash as unspent pointer, and the replay
  goes on. A failed verification or application is returned by the checker; the replay
  ends with that status, \<open>NewBlockChain\<close> returns no engine, and it returns the error
  itself when the key check had passed. An engine is returned only when every
  transaction of the sequences 1 to \<open>length()-1\<close> was accepted in its turn.
\<close>

theorem C5_startup_replay:
  assumes len: "length cdb < 2 ^ 64"
    and bc0: "bc0 = \<lparr>conf = snd (Prepare m config), chainDB = cdb, stateDB = sdb\<rparr>"
  shows "InitState m bc0 = replay m (drop 1 cdb) bc0
   \<and> (length cdb \<le> 1 \<longrightarrow> InitState m bc0 = (Ok, bc0))
   \<and> (\<forall>pre tx post bck. drop 1 cdb = pre @ tx # post \<longrightarrow> replay m pre bc0 = (Ok, bck) \<longrightarrow>
         conf bck = conf bc0 \<and> chainDB bck = cdb
         \<and> (\<forall>bck1. MakeTxChecker m bck tx = (Ok, bck1) \<longleftrightarrow>
               (\<exists>unspent s. lookupUnspent m bck tx = Inr unspent
                  \<and> tx_Verify m tx unspent (CreatorPK (conf bc0)) = None
                  \<and> (if tx_IsKittyGen m tx (CreatorPK (conf bc0))
                     then AddKitty (stateDB bck) (tx_Hash m tx) (KittyID tx) (Out tx) = Inr s
                     else \<exists>u. unspent = Some u
                            \<and> MoveKitty (stateDB bck) (tx_Hash m tx) (KittyID tx) (Out u) (Out tx) = Inr s)
                  \<and> bck1 = bck\<lparr>stateDB := s\<rparr>))
         \<and> (\<forall>bck1. MakeTxChecker m bck tx = (Ok, bck1) \<longrightarrow>
               replay m (pre @ [tx]) bc0 = (Ok, bck1)
               \<and> GetKittyState (stateDB bck1) (KittyID tx)
                   = Some \<lparr>Owner = Out tx, Unspent = tx_Hash m tx\<rparr>)
         \<and> (\<forall>unspent e. lookupUnspent m bck tx = Inr unspent \<longrightarrow>
               (tx_Verify m tx unspent (CreatorPK (conf bc0)) = Some e
                \<or> (tx_Verify m tx unspent (CreatorPK (conf bc0)) = None
                   \<and> (if tx_IsKittyGen m tx (CreatorPK (conf bc0))
                      then AddKitty (stateDB bck) (tx_Hash m tx) (KittyID tx) (Out tx) = Inl e
                      else \<exists>u. unspent = Some u
                             \<and> MoveKitty (stateDB bck) (tx_Hash m tx) (KittyID tx) (Out u) (Out tx) = Inl e))) \<longrightarrow>
               MakeTxChecker m bck tx = (Err e, bck))
         \<and> (\<forall>r. fst (MakeTxChecker m bck tx) = r \<longrightarrow> r \<noteq> Ok \<longrightarrow>
               fst (InitState m bc0) = r
               \<and> (\<forall>bc. NewBlockChain m config cdb sdb \<noteq> Value bc)
               \<and> (\<forall>e. r = Err e \<longrightarrow> fst (Prepare m config) = None \<longrightarrow>
                     NewBlockChain m config cdb sdb = Error e)))
   \<and> (\<forall>bc. NewBlockChain m config cdb sdb = Value bc \<longrightarrow>
         replay m (drop 1 cdb) bc0 = (Ok, bc)
         \<and> (\<forall>pre tx post. drop 1 cdb = pre @ tx # post \<longrightarrow>
               (\<exists>bck bck1. replay m pre bc0 = (Ok, bck) \<and> MakeTxChecker m bck tx = (Ok, bck1))))"
proof -
  have rep: "InitState m bc0 = replay m (drop 1 cdb) bc0"
    using InitState_replay [of bc0 m] len bc0 by simp
  have short: "InitState m bc0 = (Ok, bc0)" if "length cdb \<le> 1"
    using rep that by simp
  have val: "replay m (drop 1 cdb) bc0 = (Ok, bc)
         \<and> (\<forall>pre tx post. drop 1 cdb = pre @ tx # post \<longrightarrow>
               (\<exists>bck bck1. replay m pre bc0 = (Ok, bck) \<and> MakeTxChecker m bck tx = (Ok, bck1)))"
    if v: "NewBlockChain m config cdb sdb = Value bc" for bc
  proof -
    have r: "replay m (drop 1 cdb) bc0 = (Ok, bc)"
      using NewBlockChain_Value [OF v] rep bc0 by simp
    have "\<exists>bck bck1. replay m pre bc0 = (Ok, bck) \<and> MakeTxChecker m bck tx = (Ok, bck1)"
      if "drop 1 cdb = pre @ tx # post" for pre tx post
      using r that replay_Ok_each [of m pre tx post bc0 bc] by simp
    then show ?thesis using r by blast
  qed
  have step: "conf bck = conf bc0 \<and> chainDB bck = cdb
         \<and> (\<forall>bck1. MakeTxChecker m bck tx = (Ok, bck1) \<longleftrightarrow>
               (\<exists>unspent s. lookupUnspent m bck tx = Inr unspent
                  \<and> tx_Verify m tx unspent (CreatorPK (conf bc0)) = None
                  \<and> (if tx_IsKittyGen m tx (CreatorPK (conf bc0))
                     then AddKitty (stateDB bck) (tx_Hash m tx) (KittyID tx) (Out tx) = Inr s
                     else \<exists>u. unspent = Some u
                            \<and> MoveKitty (stateDB bck) (tx_Hash m tx) (KittyID tx) (Out u) (Out tx) = Inr s)
                  \<and> bck1 = bck\<lparr>stateDB := s\<rparr>))
         \<and> (\<forall>bck1. MakeTxChecker m bck tx = (Ok, bck1) \<longrightarrow>
               replay m (pre @ [tx]) bc0 = (Ok, bck1)
               \<and> GetKittyState (stateDB bck1) (KittyID tx)
                   = Some \<lparr>Owner = Out tx, Unspent = tx_Hash m tx\<rparr>)
         \<and> (\<forall>unspent e. lookupUnspent m bck tx = Inr unspent \<longrightarrow>
               (tx_Verify m tx unspent (CreatorPK (conf bc0)) = Some e
                \<or> (tx_Verify m tx unspent (CreatorPK (conf bc0)) = None
                   \<and> (if tx_IsKittyGen m tx (CreatorPK (conf bc0))
                      then AddKitty (stateDB bck) (tx_Hash m tx) (KittyID tx) (Out tx) = Inl e
                      else \<exists>u. unspent = Some u
                             \<and> MoveKitty (stateDB bck) (tx_Hash m tx) (KittyID tx) (Out u) (Out tx) = Inl e))) \<longrightarrow>
               MakeTxChecker m bck tx = (Err e, bck))
         \<and> (\<forall>r. fst (MakeTxChecker m bck tx) = r \<longrightarrow> r \<noteq> Ok \<longrightarrow>
               fst (InitState m bc0) = r
               \<and> (\<forall>bc. NewBlockChain m config cdb sdb \<noteq> Value bc)
               \<and> (\<forall>e. r = Err e \<longrightarrow> fst (Prepare m config) = None \<longrightarrow>
                     NewBlockChain m config cdb sdb = Error e))"
    if d: "drop 1 cdb = pre @ tx # post" and p: "replay m pre bc0 = (Ok, bck)"
    for pre tx post bck
  proof -
    have fr: "conf bck = conf bc0" "chainDB bck = cdb"
      using replay_frame [of m pre bc0] p bc0 by simp_all
    have iff: "MakeTxChecker m bck tx = (Ok, bck1) \<longleftrightarrow>
               (\<exists>unspent s. lookupUnspent m bck tx = Inr unspent
                  \<and> tx_Verify m tx unspent (CreatorPK (conf bc0)) = None
                  \<and> (if tx_IsKittyGen m tx (CreatorPK (conf bc0))
                     then AddKitty (stateDB bck) (tx_Hash m tx) (KittyID tx) (Out tx) = Inr s
                     else \<exists>u. unspent = Some u
                            \<and> MoveKitty (stateDB bck) (tx_Hash m tx) (KittyID tx) (Out u) (Out tx) = Inr s)
                  \<and> bck1 = bck\<lparr>stateDB := s\<rparr>)" for bck1
      using fr(1) by (auto simp: MakeTxChecker_def split: sum.splits option.splits if_splits)
    have acc: "replay m (pre @ [tx]) bc0 = (Ok, bck1)
               \<and> GetKittyState (stateDB bck1) (KittyID tx)
                   = Some \<lparr>Owner = Out tx, Unspent = tx_Hash m tx\<rparr>"
      if ok: "MakeTxChecker m bck tx = (Ok, bck1)" for bck1
    proof -
      have "replay m (pre @ [tx]) bc0 = (Ok, bck1)"
        using p ok by (simp add: replay_append)
      moreover have "GetKittyState (stateDB bck1) (KittyID tx)
                   = Some \<lparr>Owner = Out tx, Unspent = tx_Hash m tx\<rparr>"
        using ok
        by (auto simp: MakeTxChecker_def AddKitty_def MoveKitty_def GetKittyState_def Let_def
                 split: sum.splits option.splits if_splits)
      ultimately show ?thesis by simp
    qed
    have rej: "MakeTxChecker m bck tx = (Err e, bck)"
      if "lookupUnspent m bck tx = Inr unspent"
        and "tx_Verify m tx unspent (CreatorPK (conf bc0)) = Some e
                \<or> (tx_Verify m tx unspent (CreatorPK (conf bc0)) = None
                   \<and> (if tx_IsKittyGen m tx (CreatorPK (conf bc0))
                      then AddKitty (stateDB bck) (tx_Hash m tx) (KittyID tx) (Out tx) = Inl e
                      else \<exists>u. unspent = Some u
                             \<and> MoveKitty (stateDB bck) (tx_Hash m tx) (KittyID tx) (Out u) (Out tx) = Inl e))"
      for unspent e
      using that fr(1) by (auto simp: MakeTxChecker_def split: if_splits)
    have fail: "fst (InitState m bc0) = r
               \<and> (\<forall>bc. NewBlockChain m config cdb sdb \<noteq> Value bc)
               \<and> (\<forall>e. r = Err e \<longrightarrow> fst (Prepare m config) = None \<longrightarrow>
                     NewBlockChain m config cdb sdb = Error e)"
      if f: "fst (MakeTxChecker m bck tx) = r" and n: "r \<noteq> Ok" for r
    proof -
      have st: "fst (InitState m bc0) = r" using rep d replay_stops [OF p f n] by simp
      have nov: "NewBlockChain m config cdb sdb \<noteq> Value bc" for bc
      proof
        assume "NewBlockChain m config cdb sdb = Value bc"
        then have "InitState m bc0 = (Ok, bc)" using NewBlockChain_Value bc0 by simp
        then show False using st n by simp
      qed
      have err: "NewBlockChain m config cdb sdb = Error e"
        if re: "r = Err e" and pn: "fst (Prepare m config) = None" for e
      proof -
        obtain b where "InitState m bc0 = (Err e, b)"
          using st re by (cases "InitState m bc0") auto
        then show ?thesis using pn bc0
          by (cases "Prepare m config") (simp add: NewBlockChain_def)
      qed
      show ?thesis using st nov err by blast
    qed
    show ?thesis
      apply (intro conjI allI impI)
            apply (rule fr(1))
           apply (rule fr(2))
          apply (rule iff)
         apply (erule acc [THEN conjunct1])
        apply (erule acc [THEN conjunct2])
       apply (erule (1) rej)
      apply (erule (1) fail [THEN conjunct1])
      apply (frule (1) fail [THEN conjunct2, THEN conjunct1, rule_format])
      apply assumption
     apply (drule (1) fail [THEN conjunct2, THEN conjunct2, rule_format])
       apply assumption+
    done
  qed
  show ?thesis
    apply (intro conjI)
       apply (rule rep)
      apply (rule impI, erule short)
     apply (intro allI impI, erule (1) step)
    apply (intro allI impI, erule val)
    done
qed

theorem C5_startup_replay_witness:
  "NewBlockChain exMethods exConfig [exGenesis, exGen, exMove] NewMemoryState
     = Value \<lparr>conf = \<lparr>CreatorPK = 1, TxAction = Some (\<lambda>tx. None)\<rparr>,
              chainDB = [exGenesis, exGen, exMove], stateDB = exState2\<rparr>
   \<and> GetKittyState exState1 7 = Some \<lparr>Owner = 2, Unspent = 73\<rparr>
   \<and> GetKittyState exState2 7 = Some \<lparr>Owner = 3, Unspent = 73074\<rparr>
   \<and> NewBlockChain exMethods exConfig [exGenesis, exGen, exMove, exMove2] NewMemoryState
       = Error StaleReference
   \<and> InitState exMethods \<lparr>conf = snd (Prepare exMethods exConfig), chainDB = [exGen], stateDB = NewMemoryState\<rparr>
       = (Ok, \<lparr>conf = snd (Prepare exMethods exConfig), chainDB = [exGen], stateDB = NewMemoryState\<rparr>)"
proof -
  let ?c = "\<lparr>CreatorPK = 1, TxAction = Some (\<lambda>tx. None)\<rparr>"
  let ?L3 = "[exGenesis, exGen, exMove]"
  let ?L4 = "[exGenesis, exGen, exMove, exMove2]"
  have pc: "snd (Prepare exMethods exConfig) = ?c" and pn: "fst (Prepare exMethods exConfig) = None"
    by (simp_all add: Prepare_def exConfig_def exMethods_def SpecMethods_def)
  have prep: "Prepare exMethods exConfig = (None, ?c)"
    using pc pn by (cases "Prepare exMethods exConfig") simp
  have c1: "CreatorPK ?c = 1" by simp
  have hm: "tx_Hash exMethods = exHash" by (simp add: exMethods_def SpecMethods_def)
  let ?b0 = "\<lparr>conf = ?c, chainDB = ?L3, stateDB = NewMemoryState\<rparr>"
  let ?b1 = "\<lparr>conf = ?c, chainDB = ?L3, stateDB = exState1\<rparr>"
  let ?b2 = "\<lparr>conf = ?c, chainDB = ?L3, stateDB = exState2\<rparr>"
  have len3: "length ?L3 < 2 ^ 64" by simp
  have b03: "?b0 = \<lparr>conf = snd (Prepare exMethods exConfig), chainDB = ?L3, stateDB = NewMemoryState\<rparr>"
    using pc by simp
  note T3 = C5_startup_replay [where cdb = ?L3 and m = exMethods and config = exConfig
      and sdb = NewMemoryState and ?bc0.0 = ?b0, OF len3 b03]
  have gen: "MakeTxChecker exMethods \<lparr>conf = ?c, chainDB = l, stateDB = NewMemoryState\<rparr> exGen
      = (Ok, \<lparr>conf = ?c, chainDB = l, stateDB = exState1\<rparr>)" for l
    by (simp add: MakeTxChecker_def lookupUnspent_def GetKittyUnspentTx_def NewMemoryState_def
          exMethods_def SpecMethods_def Verify_def IsKittyGen_def exPrims_def EmptyTxHash_def
          AddKitty_def exState1_def exHash_exGen)
       (simp add: exGen_def)
  have move: "MakeTxChecker exMethods
        \<lparr>conf = ?c, chainDB = exGenesis # exGen # l, stateDB = exState1\<rparr> exMove
      = (Ok, \<lparr>conf = ?c, chainDB = exGenesis # exGen # l, stateDB = exState2\<rparr>)" for l
    apply (simp add: MakeTxChecker_def lookupUnspent_def GetKittyUnspentTx_def exState1_def
        ex_find_after_genesis)
    apply (simp add: exMethods_def SpecMethods_def Verify_def IsKittyGen_def exPrims_def
        EmptyTxHash_def exHash_exGen exHash_exMove MoveKitty_def exState2_def)
    apply (simp add: exGen_def exMove_def fun_upd_twist)
    done
  have stale: "MakeTxChecker exMethods
        \<lparr>conf = ?c, chainDB = exGenesis # exGen # exMove # l, stateDB = exState2\<rparr> exMove2
      = (Err StaleReference,
         \<lparr>conf = ?c, chainDB = exGenesis # exGen # exMove # l, stateDB = exState2\<rparr>)" for l
    apply (simp add: MakeTxChecker_def lookupUnspent_def GetKittyUnspentTx_def exState2_def
        ex_find_move_after_genesis exMove2_def)
    apply (simp add: exMethods_def SpecMethods_def Verify_def exPrims_def exHash_exMove)
    done
  have g3: "MakeTxChecker exMethods ?b0 exGen = (Ok, ?b1)"
    using gen [of ?L3] .
  have m3: "MakeTxChecker exMethods ?b1 exMove = (Ok, ?b2)"
    using move [of "[exMove]"] .
  have d30: "drop 1 ?L3 = [] @ exGen # [exMove]" by simp
  have p30: "replay exMethods [] ?b0 = (Ok, ?b0)" by simp
  have r31: "replay exMethods ([] @ [exGen]) ?b0 = (Ok, ?b1)"
    and k1: "GetKittyState (stateDB ?b1) (KittyID exGen)
               = Some \<lparr>Owner = Out exGen, Unspent = tx_Hash exMethods exGen\<rparr>"
    using T3 [THEN conjunct2, THEN conjunct2, THEN conjunct1, rule_format, OF d30 p30,
        THEN conjunct2, THEN conjunct2, THEN conjunct2, THEN conjunct1, rule_format, OF g3]
    by simp_all
  have d31: "drop 1 ?L3 = [exGen] @ exMove # []" by simp
  have p31: "replay exMethods [exGen] ?b0 = (Ok, ?b1)" using r31 by simp
  have r32: "replay exMethods ([exGen] @ [exMove]) ?b0 = (Ok, ?b2)"
    and k2: "GetKittyState (stateDB ?b2) (KittyID exMove)
               = Some \<lparr>Owner = Out exMove, Unspent = tx_Hash exMethods exMove\<rparr>"
    using T3 [THEN conjunct2, THEN conjunct2, THEN conjunct1, rule_format, OF d31 p31,
        THEN conjunct2, THEN conjunct2, THEN conjunct2, THEN conjunct1, rule_format, OF m3]
    by simp_all
  have i3: "InitState exMethods ?b0 = (Ok, ?b2)"
    using T3 [THEN conjunct1] r32 by simp
  have a: "NewBlockChain exMethods exConfig ?L3 NewMemoryState = Value ?b2"
    using i3 by (simp add: NewBlockChain_def prep)
  have s1: "GetKittyState exState1 7 = Some \<lparr>Owner = 2, Unspent = 73\<rparr>"
    using k1 by (simp add: hm exHash_exGen) (simp add: exGen_def)
  have s2: "GetKittyState exState2 7 = Some \<lparr>Owner = 3, Unspent = 73074\<rparr>"
    using k2 by (simp add: hm exHash_exMove) (simp add: exMove_def)
  let ?e0 = "\<lparr>conf = ?c, chainDB = ?L4, stateDB = NewMemoryState\<rparr>"
  let ?e1 = "\<lparr>conf = ?c, chainDB = ?L4, stateDB = exState1\<rparr>"
  let ?e2 = "\<lparr>conf = ?c, chainDB = ?L4, stateDB = exState2\<rparr>"
  have len4: "length ?L4 < 2 ^ 64" by simp
  have b04: "?e0 = \<lparr>conf = snd (Prepare exMethods exConfig), chainDB = ?L4, stateDB = NewMemoryState\<rparr>"
    using pc by simp
  note T4 = C5_startup_replay [where cdb = ?L4 and m = exMethods and config = exConfig
      and sdb = NewMemoryState and ?bc0.0 = ?e0, OF len4 b04]
  have g4: "MakeTxChecker exMethods ?e0 exGen = (Ok, ?e1)"
    using gen [of ?L4] .
  have m4: "MakeTxChecker exMethods ?e1 exMove = (Ok, ?e2)"
    using move [of "[exMove, exMove2]"] .
  have p4: "replay exMethods [exGen, exMove] ?e0 = (Ok, ?e2)"
    using g4 m4 by simp
  have d4: "drop 1 ?L4 = [exGen, exMove] @ exMove2 # []" by simp
  have f4: "fst (MakeTxChecker exMethods ?e2 exMove2) = Err StaleReference"
    using stale [of "[exMove2]"] by simp
  have n: "Err StaleReference \<noteq> Ok" by simp
  note stop = T4 [THEN conjunct2, THEN conjunct2, THEN conjunct1, rule_format, OF d4 p4,
      THEN conjunct2, THEN conjunct2, THEN conjunct2, THEN conjunct2, THEN conjunct2,
      rule_format, OF f4 n]
  have b: "NewBlockChain exMethods exConfig ?L4 NewMemoryState = Error StaleReference"
    using stop [THEN conjunct2, THEN conjunct2, rule_format, OF refl pn] .
  have len1: "length [exGen] < 2 ^ 64" by simp
  have c: "InitState exMethods \<lparr>conf = snd (Prepare exMethods exConfig), chainDB = [exGen], stateDB = NewMemoryState\<rparr>
       = (Ok, \<lparr>conf = snd (Prepare exMethods exConfig), chainDB = [exGen], stateDB = NewMemoryState\<rparr>)"
    using C5_startup_replay [where cdb = "[exGen]" and m = exMethods
      and config = exConfig and sdb = NewMemoryState, OF len1 refl,
      THEN conjunct2, THEN conjunct1]
    by simp
  show ?thesis
    by (intro conjI) (rule a s1 s2 b c)+
qed

lemma find_append_Some: "find P xs = Some x \<Longrightarrow> find P (xs @ ys) = Some x"
  by (induction xs) (auto split: if_splits)

lemma GetTxOfHash_extend:
  "GetTxOfHash m c h = Inr t \<Longrightarrow> GetTxOfHash m (c @ ext) h = Inr t"
  by (auto simp: GetTxOfHash_def find_append_Some split: option.splits)

lemma lookupUnspent_extend:
  "lookupUnspent m bc tx = Inr u \<Longrightarrow>
     lookupUnspent m (bc\<lparr>chainDB := chainDB bc @ ext\<rparr>) tx = Inr u"
  by (auto simp: lookupUnspent_def GetTxOfHash_extend split: option.splits sum.splits)

lemma MakeTxChecker_extend:
  assumes "MakeTxChecker m bc tx = (Ok, b)"
  shows "MakeTxChecker m (bc\<lparr>chainDB := chainDB bc @ ext\<rparr>) tx = (Ok, b\<lparr>chainDB := chainDB bc @ ext\<rparr>)"
proof -
  obtain u where u: "lookupUnspent m bc tx = Inr u"
    using MakeTxChecker_Ok [OF assms] by blast
  have u': "lookupUnspent m (bc\<lparr>chainDB := chainDB bc @ ext\<rparr>) tx = Inr u"
    using lookupUnspent_extend [OF u] .
  show ?thesis using assms u u'
    by (auto simp: MakeTxChecker_def split: option.splits sum.splits if_splits)
qed

lemma InjectAll_replay:
  "InjectAll m bc txs = (Ok, bcN) \<Longrightarrow>
     chainDB bcN = chainDB bc @ txs \<and>
     replay m txs (bc\<lparr>chainDB := chainDB bc @ txs @ ext\<rparr>) = (Ok, bcN\<lparr>chainDB := chainDB bc @ txs @ ext\<rparr>)"
proof (induction txs arbitrary: bc ext)
  case Nil
  then show ?case by simp
next
  case (Cons tx txs)
  obtain r bc1 where inj: "InjectTx m bc tx = (r, bc1)" by (cases "InjectTx m bc tx")
  have r: "r = Ok" using Cons.prems inj by (cases r) simp_all
  then have rest: "InjectAll m bc1 txs = (Ok, bcN)" using Cons.prems inj by simp
  obtain b where chk: "MakeTxChecker m bc tx = (Ok, b)" and bc1: "bc1 = b\<lparr>chainDB := chainDB bc @ [tx]\<rparr>"
    using inj r by (cases "MakeTxChecker m bc tx") (auto simp: InjectTx_cases split: status.splits)
  have c1: "chainDB bc1 = chainDB bc @ [tx]" using bc1 by simp
  have ih: "chainDB bcN = chainDB bc1 @ txs"
    "replay m txs (bc1\<lparr>chainDB := chainDB bc1 @ txs @ ext\<rparr>) = (Ok, bcN\<lparr>chainDB := chainDB bc1 @ txs @ ext\<rparr>)"
    using Cons.IH [OF rest, of ext] by simp_all
  have step: "MakeTxChecker m (bc\<lparr>chainDB := chainDB bc @ (tx # txs) @ ext\<rparr>) tx
                = (Ok, b\<lparr>chainDB := chainDB bc @ (tx # txs) @ ext\<rparr>)"
    using MakeTxChecker_extend [OF chk, of "(tx # txs) @ ext"] .
  have eq: "b\<lparr>chainDB := chainDB bc @ (tx # txs) @ ext\<rparr> = bc1\<lparr>chainDB := chainDB bc1 @ txs @ ext\<rparr>"
    using bc1 by simp
  show ?case using ih c1 step eq by simp
qed

lemma InjectAll_frame:
  "InjectAll m bc txs = (Ok, bcN) \<Longrightarrow> conf bcN = conf bc"
proof (induction txs arbitrary: bc)
  case Nil
  then show ?case by simp
next
  case (Cons tx txs)
  obtain r bc1 where inj: "InjectTx m bc tx = (r, bc1)" by (cases "InjectTx m bc tx")
  have r: "r = Ok" using Cons.prems inj by (cases r) simp_all
  then have rest: "InjectAll m bc1 txs = (Ok, bcN)" using Cons.prems inj by simp
  have "conf bc1 = conf bc"
    using inj r MakeTxChecker_conf [of m bc tx]
    by (cases "MakeTxChecker m bc tx") (auto simp: InjectTx_cases split: status.splits)
  then show ?case using Cons.IH [OF rest] by simp
qed

text \<open>
  C6, as the claim states it, fails: the replay starts at sequence 1. After one
  generation transaction is injected into the engine with an empty log, the log has
  length 1 and holds the transaction at sequence 0; the projection records asset 7,
  but the replay of this log from the empty projection reads nothing and leaves the
  projection empty. After a transfer of the asset is injected as well, the replay
  of the log fails at sequence 1, since the creation at sequence 0 was not replayed.
\<close>

theorem C6_replay_counterexample:
  "InjectAll exMethods exEmpty [exGen] = (Ok, \<lparr>conf = exConfig, chainDB = [exGen], stateDB = exState1\<rparr>)
   \<and> InitState exMethods \<lparr>conf = exConfig, chainDB = [exGen], stateDB = NewMemoryState\<rparr>
       = (Ok, \<lparr>conf = exConfig, chainDB = [exGen], stateDB = NewMemoryState\<rparr>)
   \<and> GetKittyState exState1 7 = Some \<lparr>Owner = 2, Unspent = 73\<rparr>
   \<and> GetKittyState NewMemoryState 7 = None
   \<and> InjectAll exMethods exEmpty [exGen, exMove]
       = (Ok, \<lparr>conf = exConfig, chainDB = [exGen, exMove], stateDB = exState2\<rparr>)
   \<and> InitState exMethods \<lparr>conf = exConfig, chainDB = [exGen, exMove], stateDB = NewMemoryState\<rparr>
       = (Err UnauthorizedCreation, \<lparr>conf = exConfig, chainDB = [exGen, exMove], stateDB = NewMemoryState\<rparr>)"
proof -
  let ?bc2 = "\<lparr>conf = exConfig, chainDB = [exGen, exMove], stateDB = NewMemoryState\<rparr>"
  have i1: "InjectAll exMethods exEmpty [exGen]
      = (Ok, \<lparr>conf = exConfig, chainDB = [exGen], stateDB = exState1\<rparr>)"
    by (simp add: ex_inject_gen)
  have r1: "InitState exMethods \<lparr>conf = exConfig, chainDB = [exGen], stateDB = NewMemoryState\<rparr>
       = (Ok, \<lparr>conf = exConfig, chainDB = [exGen], stateDB = NewMemoryState\<rparr>)"
    by (simp add: InitState_def InitState_loop.simps [of _ 1] Len_def)
  have k1: "GetKittyState exState1 7 = Some \<lparr>Owner = 2, Unspent = 73\<rparr>"
    by (simp add: GetKittyState_def exState1_def)
  have k0: "GetKittyState NewMemoryState 7 = None"
    by (simp add: GetKittyState_def NewMemoryState_def)
  have i2: "InjectAll exMethods exEmpty [exGen, exMove]
       = (Ok, \<lparr>conf = exConfig, chainDB = [exGen, exMove], stateDB = exState2\<rparr>)"
    by (simp add: ex_inject_gen ex_inject_move)
  have f: "MakeTxChecker exMethods ?bc2 exMove = (Err UnauthorizedCreation, ?bc2)"
    by (simp add: MakeTxChecker_def lookupUnspent_def GetKittyUnspentTx_def NewMemoryState_def
        exMethods_def SpecMethods_def Verify_def exPrims_def EmptyTxHash_def exMove_def)
  have g: "GetTxOfSeq [exGen, exMove] 1 = Inr exMove"
    by (simp add: GetTxOfSeq_def)
  have r2: "InitState exMethods ?bc2 = (Err UnauthorizedCreation, ?bc2)"
    by (simp add: InitState_def InitState_loop.simps [of _ 1] Len_def g f)
  show ?thesis
    by (intro conjI) (rule i1 r1 k1 k0 i2 r2)+
qed

text \<open>
  C6, amended. Let the log hold exactly one entry, at sequence 0, before the
  injections (a genesis marker, which the replay never reads), and let the
  transactions \<open>txs\<close> be accepted by sequential injection. Then the log is the marker
  followed by \<open>txs\<close>, and \<open>InitState\<close> on this log, started from the projection the
  injections started from (the empty one in particular), succeeds and ends in the same
  engine: the same projection, so the same owner and unspent hash for every asset.
\<close>

theorem C6_replay_amended:
  assumes genesis: "length (chainDB bc0) = 1"
    and inj: "InjectAll m bc0 txs = (Ok, bcN)"
    and len: "length (chainDB bcN) < 2 ^ 64"
  shows "chainDB bcN = chainDB bc0 @ txs
         \<and> InitState m (bcN\<lparr>stateDB := stateDB bc0\<rparr>) = (Ok, bcN)
         \<and> (\<forall>k. GetKittyState (stateDB (snd (InitState m (bcN\<lparr>stateDB := stateDB bc0\<rparr>)))) k
                   = GetKittyState (stateDB bcN) k)"
proof -
  have ch: "chainDB bcN = chainDB bc0 @ txs"
    and rp: "replay m txs (bc0\<lparr>chainDB := chainDB bc0 @ txs @ []\<rparr>) = (Ok, bcN\<lparr>chainDB := chainDB bc0 @ txs @ []\<rparr>)"
    using InjectAll_replay [OF inj, of "[]"] by simp_all
  have cf: "conf bcN = conf bc0" using InjectAll_frame [OF inj] .
  have start: "bcN\<lparr>stateDB := stateDB bc0\<rparr> = bc0\<lparr>chainDB := chainDB bc0 @ txs\<rparr>"
    using ch cf by simp
  have dr: "drop 1 (chainDB bcN) = txs" using ch genesis by simp
  have "InitState m (bcN\<lparr>stateDB := stateDB bc0\<rparr>) = replay m txs (bcN\<lparr>stateDB := stateDB bc0\<rparr>)"
    using InitState_replay [of "bcN\<lparr>stateDB := stateDB bc0\<rparr>" m] len dr by simp
  also have "\<dots> = (Ok, bcN)" using rp start ch by simp
  finally show ?thesis using ch by simp
qed

theorem C6_replay_amended_witness:
  "InjectAll exMethods \<lparr>conf = exConfig, chainDB = [exGenesis], stateDB = NewMemoryState\<rparr> [exGen, exMove]
     = (Ok, \<lparr>conf = exConfig, chainDB = [exGenesis, exGen, exMove], stateDB = exState2\<rparr>)
   \<and> InitState exMethods \<lparr>conf = exConfig, chainDB = [exGenesis, exGen, exMove], stateDB = NewMemoryState\<rparr>
       = (Ok, \<lparr>conf = exConfig, chainDB = [exGenesis, exGen, exMove], stateDB = exState2\<rparr>)"
proof -
  let ?bc0 = "\<lparr>conf = exConfig, chainDB = [exGenesis], stateDB = NewMemoryState\<rparr>"
  let ?bcN = "\<lparr>conf = exConfig, chainDB = [exGenesis, exGen, exMove], stateDB = exState2\<rparr>"
  have h2: "exHash exGenesis \<noteq> 73" by (simp add: exHash_def exGenesis_def)
  have f: "GetTxOfHash exMethods [exGenesis, exGen] 73 = Inr exGen"
    using h2 by (simp add: GetTxOfHash_def exMethods_def SpecMethods_def exHash_exGen)
  have m: "MakeTxChecker exMethods \<lparr>conf = exConfig, chainDB = [exGenesis, exGen], stateDB = exState1\<rparr> exMove
     = (Ok, \<lparr>conf = exConfig, chainDB = [exGenesis, exGen], stateDB = exState2\<rparr>)"
    apply (simp add: MakeTxChecker_def lookupUnspent_def GetKittyUnspentTx_def exState1_def f)
    apply (simp add: exMethods_def SpecMethods_def Verify_def IsKittyGen_def exPrims_def
      EmptyTxHash_def exConfig_def exHash_exGen exHash_exMove MoveKitty_def exState2_def)
    apply (simp add: exGen_def exMove_def fun_upd_twist)
    done
  have inj: "InjectAll exMethods ?bc0 [exGen, exMove] = (Ok, ?bcN)"
    by (simp add: InjectTx_cases ex_checker_gen m)
  have "InitState exMethods (?bcN\<lparr>stateDB := stateDB ?bc0\<rparr>) = (Ok, ?bcN)"
    using C6_replay_amended [of ?bc0 exMethods "[exGen, exMove]" ?bcN] inj by simp
  then show ?thesis using inj by simp
qed

section \<open>Shutdown: a run\<close>

text \<open>
  C8. \<open>Close\<close> closes the channel \<open>quit\<close> and returns; it does not wait on the wait
  group. In the run below \<open>Close\<close> has returned while the dispatcher is still running,
  and the next round of the dispatcher's \<open>select\<close>, for which both cases are ready,
  hands the pending notification to the hook.
\<close>

theorem C8_close_does_not_wait:
  "Close \<lparr>quitClosed = False, running = True, txChan = [exGen], handled = []\<rparr>
     = (Ok, \<lparr>quitClosed = True, running = True, txChan = [exGen], handled = []\<rparr>)
   \<and> service_step \<lparr>conf = \<lparr>CreatorPK = 1, TxAction = Some (\<lambda>tx. None)\<rparr>, chainDB = [exGen],
                       stateDB = exState1\<rparr>
         TxCase \<lparr>quitClosed = True, running = True, txChan = [exGen], handled = []\<rparr>
       = Some (Ok, \<lparr>quitClosed = True, running = True, txChan = [], handled = [exGen]\<rparr>)"
  by (simp add: Close_def service_step_def)

end
